theory Spec2Isabelle
  imports Main "HOL-Library.AList"
begin

section \<open>JavaScript values\<close>

text \<open>
  Values that flow through props, hook slots and dependency arrays. Functions, arrays
  and plain objects carry a reference identity (the \<open>nat\<close>): \<open>Object.is\<close> and
  \<open>===\<close> compare them by that identity, never by content. Numbers are the integers
  together with the two values on which \<open>Object.is\<close> and \<open>===\<close> disagree,
  \<open>NaN\<close> and \<open>-0\<close> (\<open>VNum 0\<close> is \<open>+0\<close>). Objects hold their own enumerable
  properties in insertion order, each key once; what a value inherits through its
  prototype chain is given by \<open>prototypes\<close> below.

  \<open>VEffectHook deps cleanup effect\<close> is the \<open>EffectHook\<close> object that \<open>useEffect\<close>
  stores in a hook slot (\<open>{kind: HookTypes.EFFECT, deps, cleanup, effect}\<close>): \<open>deps\<close> is
  an array or \<open>null\<close>, \<open>cleanup\<close> a procedure or \<open>null\<close>, \<open>effect\<close> a procedure.
  User procedures are named by a \<open>nat\<close>. Hook objects never reach user code, so their
  identity is never compared; \<open>Object_is\<close> compares them by content.
\<close>

datatype val =
    VUndefined
  | VNull
  | VBool bool
  | VNum int
  | VNaN
  | VNegZero
  | VStr string
  | VFun nat
  | VArr nat "val list"
  | VObj nat "(string \<times> val) list"
  | VEffectHook val "nat option" nat

definition Object_is :: "val \<Rightarrow> val \<Rightarrow> bool" where
  "Object_is a b =
     (case a of
        VArr i _ \<Rightarrow> (case b of VArr j _ \<Rightarrow> i = j | _ \<Rightarrow> False)
      | VObj i _ \<Rightarrow> (case b of VObj j _ \<Rightarrow> i = j | _ \<Rightarrow> False)
      | _ \<Rightarrow> (case b of VArr _ _ \<Rightarrow> False | VObj _ _ \<Rightarrow> False | _ \<Rightarrow> a = b))"

text \<open>\<open>a === b\<close>: as \<open>Object.is\<close>, except that \<open>NaN\<close> differs from itself and the
  two zeros are equal.\<close>

definition strict_eq :: "val \<Rightarrow> val \<Rightarrow> bool" where
  "strict_eq a b =
     (if a = VNaN \<or> b = VNaN then False
      else if (a = VNegZero \<or> a = VNum 0) \<and> (b = VNegZero \<or> b = VNum 0) then True
      else Object_is a b)"

text \<open>\<open>v == null\<close> holds of \<open>null\<close> and \<open>undefined\<close>.\<close>

definition is_nullish :: "val \<Rightarrow> bool" where
  "is_nullish v = (v = VNull \<or> v = VUndefined)"

text \<open>\<open>typeof v === "object"\<close>: \<open>null\<close>, arrays, plain objects and hook objects.\<close>

fun typeof_object :: "val \<Rightarrow> bool" where
  "typeof_object VNull = True"
| "typeof_object (VArr _ _) = True"
| "typeof_object (VObj _ _) = True"
| "typeof_object (VEffectHook _ _ _) = True"
| "typeof_object _ = False"

fun isArray :: "val \<Rightarrow> bool" where
  "isArray (VArr _ _) = True"
| "isArray _ = False"

fun truthy :: "val \<Rightarrow> bool" where
  "truthy VUndefined = False"
| "truthy VNull = False"
| "truthy (VBool b) = b"
| "truthy (VNum n) = (n \<noteq> 0)"
| "truthy VNaN = False"
| "truthy VNegZero = False"
| "truthy (VStr s) = (s \<noteq> [])"
| "truthy _ = True"

subsection \<open>Decimal rendering of an index\<close>

text \<open>\<open>Object.keys\<close> of an array renders its indices in decimal, as a template
  literal does for a non-negative integer below \<open>1e21\<close> (an array index is below
  \<open>2^32\<close>).\<close>

definition digit_char :: "nat \<Rightarrow> char" where
  "digit_char d = ''0123456789'' ! d"

fun string_of_nat :: "nat \<Rightarrow> string" where
  "string_of_nat n =
     (if n < 10 then [digit_char n] else string_of_nat (n div 10) @ [digit_char (n mod 10)])"

declare string_of_nat.simps [simp del]

subsection \<open>Properties\<close>

definition HookTypes_EFFECT :: val where
  \<comment> \<open>The constants module is not part of the sources; the tag is only ever compared
      with itself.\<close>
  "HookTypes_EFFECT = VStr ''effect''"

text \<open>A procedure or null, as a value.\<close>

definition proc_val :: "nat option \<Rightarrow> val" where
  "proc_val p = (case p of Some f \<Rightarrow> VFun f | None \<Rightarrow> VNull)"

text \<open>\<open>Object.keys(v)\<close> for a value that passed the \<open>typeof v === "object"\<close> and
  non-null tests: the indices of an array, the keys of an object.\<close>

fun own_keys :: "val \<Rightarrow> string list" where
  "own_keys (VArr _ xs) = map string_of_nat [0..<length xs]"
| "own_keys (VObj _ kvs) = map fst kvs"
| "own_keys (VEffectHook _ _ _) = [''kind'', ''deps'', ''cleanup'', ''effect'']"
| "own_keys _ = []"

text \<open>The own properties of a value: the elements and the \<open>length\<close> of an array,
  the entries of an object, the four fields of a hook object.\<close>

fun own_prop :: "val \<Rightarrow> string \<Rightarrow> val option" where
  "own_prop (VArr _ xs) k =
     (if k = ''length'' then Some (VNum (int (length xs)))
      else map_of (zip (map string_of_nat [0..<length xs]) xs) k)"
| "own_prop (VObj _ kvs) k = map_of kvs k"
| "own_prop (VEffectHook d c e) k =
     (if k = ''kind'' then Some HookTypes_EFFECT
      else if k = ''deps'' then Some d
      else if k = ''cleanup'' then Some (proc_val c)
      else if k = ''effect'' then Some (VFun e)
      else None)"
| "own_prop _ k = None"

text \<open>
  What the runtime lets a value inherit: the properties of \<open>Object.prototype\<close> (for a
  plain object, a props object and a hook object), those that \<open>Array.prototype\<close> and
  \<open>Object.prototype\<close> give an array, and those of any other value (its own ones
  included). \<open>Object.prototype\<close> holds \<open>constructor\<close>, \<open>toString\<close> and others.
\<close>

record prototypes =
  object_proto :: "string \<rightharpoonup> val"
  array_proto :: "string \<rightharpoonup> val"
  other_proto :: "val \<Rightarrow> string \<rightharpoonup> val"

definition inherited :: "prototypes \<Rightarrow> val \<Rightarrow> string \<Rightarrow> val option" where
  "inherited P v k =
     (case v of
        VArr _ _ \<Rightarrow> array_proto P k
      | VObj _ _ \<Rightarrow> object_proto P k
      | VEffectHook _ _ _ \<Rightarrow> object_proto P k
      | _ \<Rightarrow> other_proto P v k)"

text \<open>\<open>v[key]\<close>: the own property, else the inherited one, else \<open>undefined\<close>.\<close>

definition get_prop :: "prototypes \<Rightarrow> val \<Rightarrow> string \<Rightarrow> val" where
  "get_prop P v k =
     (case own_prop v k of
        Some x \<Rightarrow> x
      | None \<Rightarrow> (case inherited P v k of Some x \<Rightarrow> x | None \<Rightarrow> VUndefined))"

section \<open>Equality utilities\<close>

text \<open>The loop \<open>for (i = 0; i < a.length; i++) if (!Object.is(a[i], b[i])) return false\<close>
  over two arrays already known to have the same length.\<close>

fun all_Object_is :: "val list \<Rightarrow> val list \<Rightarrow> bool" where
  "all_Object_is (x # xs) (y # ys) = (if \<not> Object_is x y then False else all_Object_is xs ys)"
| "all_Object_is _ _ = True"

text \<open>The loop \<open>for (const key of keysA) if (!Object.is(objA[key], objB[key])) return false\<close>.\<close>

fun all_keys_Object_is :: "prototypes \<Rightarrow> string list \<Rightarrow> val \<Rightarrow> val \<Rightarrow> bool" where
  "all_keys_Object_is P [] a b = True"
| "all_keys_Object_is P (k # ks) a b =
     (if \<not> Object_is (get_prop P a k) (get_prop P b k) then False
      else all_keys_Object_is P ks a b)"

definition shallowEquals :: "prototypes \<Rightarrow> val \<Rightarrow> val \<Rightarrow> bool" where
  "shallowEquals P a b =
     (if Object_is a b then True
      else if is_nullish a \<or> is_nullish b \<or> \<not> typeof_object a \<or> \<not> typeof_object b then False
      else if isArray a \<and> isArray b then
        (case (a, b) of
           (VArr _ xs, VArr _ ys) \<Rightarrow>
             if length xs \<noteq> length ys then False else all_Object_is xs ys
         | _ \<Rightarrow> False)
      else if isArray a \<noteq> isArray b then False
      else if length (own_keys a) \<noteq> length (own_keys b) then False
      else all_keys_Object_is P (own_keys a) a b)"

text \<open>
  \<open>deepEquals\<close> recurses into array elements and property values. The two loops are
  \<open>deepEquals_elems\<close> (both arrays, same length) and \<open>deepEquals_props\<close> (the keys of
  \<open>a\<close> in order, each read from \<open>a\<close> and from \<open>b\<close>); the latter walks the entries of
  \<open>a\<close>, which for an array are its indices from \<open>i\<close> on. On a value that is not an
  object (the \<open>kind\<close>, \<open>cleanup\<close> and \<open>effect\<close> fields of a hook object)
  \<open>deepEquals\<close> is \<open>Object.is\<close>.
\<close>

fun deepEquals :: "prototypes \<Rightarrow> val \<Rightarrow> val \<Rightarrow> bool"
  and deepEquals_elems :: "prototypes \<Rightarrow> val list \<Rightarrow> val list \<Rightarrow> bool"
  and deepEquals_props :: "prototypes \<Rightarrow> (string \<times> val) list \<Rightarrow> val \<Rightarrow> bool"
  and deepEquals_indexed :: "prototypes \<Rightarrow> nat \<Rightarrow> val list \<Rightarrow> val \<Rightarrow> bool"
where
  "deepEquals P a b =
     (if Object_is a b then True
      else if is_nullish a \<or> is_nullish b \<or> \<not> typeof_object a \<or> \<not> typeof_object b then False
      else
        (case a of
           VArr _ xs \<Rightarrow>
             (case b of
                VArr _ ys \<Rightarrow> if length xs \<noteq> length ys then False else deepEquals_elems P xs ys
              | _ \<Rightarrow> if length xs \<noteq> length (own_keys b) then False
                     else deepEquals_indexed P 0 xs b)
         | VObj _ kvs \<Rightarrow>
             if length kvs \<noteq> length (own_keys b) then False else deepEquals_props P kvs b
         | VEffectHook d c e \<Rightarrow>
             if 4 \<noteq> length (own_keys b) then False
             else if \<not> Object_is HookTypes_EFFECT (get_prop P b ''kind'') then False
             else if \<not> deepEquals P d (get_prop P b ''deps'') then False
             else if \<not> Object_is (proc_val c) (get_prop P b ''cleanup'') then False
             else Object_is (VFun e) (get_prop P b ''effect'')
         | _ \<Rightarrow> False))"
| "deepEquals_elems P (x # xs) (y # ys) =
     (if \<not> deepEquals P x y then False else deepEquals_elems P xs ys)"
| "deepEquals_elems P [] ys = True"
| "deepEquals_elems P xs [] = True"
| "deepEquals_props P [] b = True"
| "deepEquals_props P ((k, v) # kvs) b =
     (if \<not> deepEquals P v (get_prop P b k) then False else deepEquals_props P kvs b)"
| "deepEquals_indexed P i [] b = True"
| "deepEquals_indexed P i (x # xs) b =
     (if \<not> deepEquals P x (get_prop P b (string_of_nat i)) then False
      else deepEquals_indexed P (Suc i) xs b)"

section \<open>Virtual nodes and instances\<close>

text \<open>
  The \<open>type\<close> of a VNode is a host tag, the \<open>TEXT_ELEMENT\<close> marker, the
  \<open>Fragment\<close> marker or a component function, named by a \<open>nat\<close> and compared by that
  identity. A key is a string or null, as the \<open>VNode\<close> type declares it.
  \<open>props.children\<close> is kept apart from the other props (\<open>node_children\<close>); an absent
  \<open>children\<close> entry is the empty list, as \<open>props.children || []\<close> reads it.
\<close>

datatype node_type = HostTag string | TEXT_ELEMENT | Fragment | Component nat

datatype vnode =
  VNode (node_type: node_type) (node_key: "string option")
        (node_props: "(string \<times> val) list") (node_children: "vnode list")

datatype kind = HOST | TEXT | FRAGMENT | COMPONENT

datatype "instance" =
  Instance (inst_kind: kind) (inst_dom: "nat option") (inst_node: vnode)
           (inst_children: "instance option list") (inst_key: "string option")
           (inst_path: string)

section \<open>The render context\<close>

text \<open>
  Platform widgets are named by a \<open>nat\<close>. The platform is observed through the log of
  the operations that the reconciler and the adapter perform on it; the only platform
  state the code reads back is a widget's \<open>parentNode\<close> and whether a key is a
  property of a widget (\<open>key in dom\<close>).
\<close>

datatype dom_op =
    CreateElement nat string
  | CreateTextNode nat val
  | AppendChild nat nat
  | RemoveChild nat nat
  | SetStyle nat string val
  | SetClassName nat val
  | AddEventListener nat string val
  | RemoveEventListener nat string val
  | SetProperty nat string val
  | SetAttribute nat string val
  | RemoveAttribute nat string
  | SetNodeValue nat val

datatype error = OutOfFuel | TypeError | NoCurrentComponent | ComponentThrew | PlatformThrew

text \<open>
  The module-level \<open>context\<close> object with the platform beside it. Its \<open>hooks\<close> and
  \<open>effects\<close> parts are what a component's body can reach through the hooks:
  \<open>hooks_state\<close> is the \<open>Map\<close> from path to slot array in insertion order
  (\<open>forEach\<close> walks it in that order), \<open>hooks_cursor\<close> the \<open>Map\<close> from path to
  cursor, \<open>hooks_visited\<close> the \<open>Set\<close> of paths. \<open>calls\<close> records each invocation
  of a cleanup or effect procedure, \<open>renders_enqueued\<close> counts the calls of
  \<open>enqueueRender\<close>, and \<open>microtasks\<close> holds the effect batches handed to
  \<open>queueMicrotask\<close>. The \<open>root\<close> part and the platform are the reconciler's.
\<close>

record hook_store =
  hooks_state :: "(string \<times> val list) list"
  hooks_cursor :: "string \<rightharpoonup> nat"
  hooks_visited :: "string set"
  hooks_componentStack :: "string list"
  effects_queue :: "(string \<times> nat) list"
  calls :: "nat list"
  renders_enqueued :: nat
  microtasks :: "(string \<times> nat) list list"

record "context" = hook_store +
  root_container :: nat
  root_node :: "vnode option"
  root_instance :: "instance option"
  dom_parent :: "nat \<rightharpoonup> nat"
  dom_tag :: "nat \<rightharpoonup> string"
  dom_next :: nat
  dom_log :: "dom_op list"

definition store_of :: "context \<Rightarrow> hook_store" where
  "store_of c =
     \<lparr>hooks_state = hooks_state c, hooks_cursor = hooks_cursor c,
      hooks_visited = hooks_visited c, hooks_componentStack = hooks_componentStack c,
      effects_queue = effects_queue c, calls = calls c,
      renders_enqueued = renders_enqueued c, microtasks = microtasks c\<rparr>"

definition with_store :: "hook_store \<Rightarrow> context \<Rightarrow> context" where
  "with_store h c =
     c\<lparr>hooks_state := hooks_state h, hooks_cursor := hooks_cursor h,
       hooks_visited := hooks_visited h, hooks_componentStack := hooks_componentStack h,
       effects_queue := effects_queue h, calls := calls h,
       renders_enqueued := renders_enqueued h, microtasks := microtasks h\<rparr>"

text \<open>
  What the application and the runtime supply. A component has the \<open>displayName\<close> and
  \<open>name\<close> of its function and a body that runs against the hook store (it calls
  hooks) and returns one child VNode or null, or throws; what its own code may do to
  the platform is not an operation of the reconciler and is not recorded.
  \<open>effect_result f\<close> is the cleanup that procedure \<open>f\<close> returns when run as an effect
  (\<open>None\<close> for no cleanup), \<open>call_fn f args\<close> the value of a state initialiser or updater, \<open>has_dom_property tag key\<close> the platform's \<open>key in dom\<close>
  for a widget of that tag. \<open>exponent_string n\<close> is how a template literal prints a
  number from \<open>1e21\<close> on (\<open>1e+21\<close>). A platform call may throw (an assignment to a
  getter-only property such as \<open>form\<close> of an input, an invalid tag or attribute name,
  a value with no string conversion): \<open>platform_rejects tag op\<close> tells whether \<open>op\<close>
  on a widget of that tag does.
\<close>

record component =
  comp_displayName :: "string option"
  comp_name :: string
  comp_body ::
    "(string \<times> val) list \<Rightarrow> vnode list \<Rightarrow> hook_store \<Rightarrow> error + (vnode option \<times> hook_store)"

record env =
  components :: "nat \<Rightarrow> component"
  effect_result :: "nat \<Rightarrow> nat option"
  call_fn :: "nat \<Rightarrow> val list \<Rightarrow> val"
  has_dom_property :: "string \<Rightarrow> string \<Rightarrow> bool"
  protos :: prototypes
  exponent_string :: "nat \<Rightarrow> string"
  platform_rejects :: "string \<Rightarrow> dom_op \<Rightarrow> bool"

section \<open>Path identity\<close>

definition componentName :: "component \<Rightarrow> string" where
  \<comment> \<open>\<open>nodeType.displayName || nodeType.name || "Component"\<close>\<close>
  "componentName f =
     (case comp_displayName f of
        Some d \<Rightarrow> if d \<noteq> [] then d
                  else if comp_name f \<noteq> [] then comp_name f else ''Component''
      | None \<Rightarrow> if comp_name f \<noteq> [] then comp_name f else ''Component'')"

text \<open>\<open>`${n}`\<close> for a non-negative integer \<open>n\<close>.\<close>

definition number_string :: "env \<Rightarrow> nat \<Rightarrow> string" where
  "number_string E n =
     (if n < 1000000000000000000000 then string_of_nat n else exponent_string E n)"

definition createChildPath ::
  "env \<Rightarrow> string \<Rightarrow> string option \<Rightarrow> nat \<Rightarrow> node_type option \<Rightarrow> vnode list option \<Rightarrow> string"
where
  "createChildPath E parentPath key index nodeType siblings =
     (case key of
        Some k \<Rightarrow> parentPath @ ''.k'' @ k
      | None \<Rightarrow>
          (case nodeType of
             Some (Component f) \<Rightarrow>
               (let componentName = componentName (components E f);
                    sameTypeCount =
                      (case siblings of
                         Some s \<Rightarrow>
                           length (filter (\<lambda>sibling. node_type sibling = Component f \<and>
                                                      node_key sibling = None)
                                     (take index s))
                       | None \<Rightarrow> 0)
                in parentPath @ ''.c'' @ componentName @ ''_'' @ number_string E sameTypeCount)
           | _ \<Rightarrow> parentPath @ ''.i'' @ number_string E index))"

section \<open>The hook store\<close>

text \<open>
  JavaScript arrays: a read past the end is \<open>undefined\<close>, a write past the end
  extends the array (the skipped positions read as \<open>undefined\<close>).
\<close>

definition array_get :: "val list \<Rightarrow> nat \<Rightarrow> val" where
  "array_get xs i = (if i < length xs then xs ! i else VUndefined)"

definition array_set :: "val list \<Rightarrow> nat \<Rightarrow> val \<Rightarrow> val list" where
  "array_set xs i v =
     (if i < length xs then xs[i := v]
      else xs @ replicate (i - length xs) VUndefined @ [v])"

text \<open>
  Modelled from the spec: the getters \<open>currentPath\<close>, \<open>currentCursor\<close> and
  \<open>currentHooks\<close> of \<open>context.hooks\<close> (the context module is not part of the
  sources). The store exposes, for the currently executing component (the top of the
  call stack), its slot cursor and its ordered slot sequence; callers read and write
  slot \<open>[cursor]\<close>. With no component executing there is no current path. A write to
  \<open>currentHooks[cursor]\<close> lands in the slot array stored under the path.
\<close>

definition currentPath :: "'a hook_store_scheme \<Rightarrow> string option" where
  "currentPath c =
     (case hooks_componentStack c of [] \<Rightarrow> None | _ # _ \<Rightarrow> Some (last (hooks_componentStack c)))"

definition cursor_at :: "'a hook_store_scheme \<Rightarrow> string \<Rightarrow> nat" where
  "cursor_at c path = (case hooks_cursor c path of Some n \<Rightarrow> n | None \<Rightarrow> 0)"

definition hooks_at :: "'a hook_store_scheme \<Rightarrow> string \<Rightarrow> val list" where
  "hooks_at c path = (case map_of (hooks_state c) path of Some hs \<Rightarrow> hs | None \<Rightarrow> [])"

definition write_slot ::
  "string \<Rightarrow> nat \<Rightarrow> val \<Rightarrow> 'a hook_store_scheme \<Rightarrow> 'a hook_store_scheme"
where
  "write_slot path cursor v c =
     c\<lparr>hooks_state := AList.update path (array_set (hooks_at c path) cursor v) (hooks_state c)\<rparr>"

text \<open>
  Cleanup and effect procedures are the application's; running one is recorded in
  \<open>calls\<close>. \<open>enqueueRender\<close> is \<open>withEnqueue(render)\<close>, whose scheduling is outside
  the sources; a call of it is counted.
\<close>

definition invoke :: "nat \<Rightarrow> 'a hook_store_scheme \<Rightarrow> 'a hook_store_scheme" where
  "invoke f c = c\<lparr>calls := calls c @ [f]\<rparr>"

definition enqueueRender :: "'a hook_store_scheme \<Rightarrow> 'a hook_store_scheme" where
  "enqueueRender c = c\<lparr>renders_enqueued := Suc (renders_enqueued c)\<rparr>"

subsection \<open>cleanupUnusedHooks\<close>

text \<open>
  The test \<open>hook && typeof hook === "object" && "kind" in hook && hook.kind ===
  HookTypes.EFFECT\<close> selects the hook objects; a state value is taken not to imitate
  one. A hook's \<open>cleanup\<close> is a procedure or null, so \<open>if (effectHook.cleanup)\<close> is
  the test for non-null.
\<close>

definition pathsToDelete :: "context \<Rightarrow> string list" where
  "pathsToDelete c = filter (\<lambda>path. path \<notin> hooks_visited c) (map fst (hooks_state c))"

fun run_cleanups :: "val list \<Rightarrow> context \<Rightarrow> context" where
  "run_cleanups [] c = c"
| "run_cleanups (hook # hs) c =
     run_cleanups hs
       (case hook of
          VEffectHook d cleanup e \<Rightarrow> (case cleanup of Some f \<Rightarrow> invoke f c | None \<Rightarrow> c)
        | _ \<Rightarrow> c)"

fun delete_paths :: "string list \<Rightarrow> context \<Rightarrow> context" where
  "delete_paths [] c = c"
| "delete_paths (path # ps) c =
     (let c1 = (case map_of (hooks_state c) path of
                  Some hookState \<Rightarrow> run_cleanups hookState c
                | None \<Rightarrow> c)
      in delete_paths ps
           (c1\<lparr>hooks_state := AList.delete path (hooks_state c1),
                hooks_cursor := (hooks_cursor c1)(path := None)\<rparr>))"

definition cleanupUnusedHooks :: "context \<Rightarrow> context" where
  "cleanupUnusedHooks c = delete_paths (pathsToDelete c) c"

subsection \<open>useState\<close>

text \<open>
  \<open>useState\<close> returns the state and the setter; the setter is the closure over
  \<open>path\<close> and \<open>cursor\<close>, returned here as that pair and run by \<open>setState\<close>.
\<close>

definition useState ::
  "env \<Rightarrow> val \<Rightarrow> 'a hook_store_scheme
     \<Rightarrow> error + ((val \<times> string \<times> nat) \<times> 'a hook_store_scheme)"
where
  "useState E initialValue c =
     (case currentPath c of
        None \<Rightarrow> Inl NoCurrentComponent
      | Some path \<Rightarrow>
          (let cursor = cursor_at c path;
               c1 = (if array_get (hooks_at c path) cursor = VUndefined
                     then write_slot path cursor
                            (case initialValue of VFun f \<Rightarrow> call_fn E f [] | v \<Rightarrow> v) c
                     else c);
               state = array_get (hooks_at c1 path) cursor
           in Inr ((state, path, cursor),
                   c1\<lparr>hooks_cursor := (hooks_cursor c1)(path \<mapsto> cursor + 1)\<rparr>)))"

definition setState ::
  "env \<Rightarrow> string \<Rightarrow> nat \<Rightarrow> val \<Rightarrow> 'a hook_store_scheme \<Rightarrow> 'a hook_store_scheme"
where
  "setState E path cursor nextValue c =
     (let currentState = (case map_of (hooks_state c) path of
                            Some hs \<Rightarrow> array_get hs cursor
                          | None \<Rightarrow> VUndefined);
          newValue = (case nextValue of VFun f \<Rightarrow> call_fn E f [currentState] | v \<Rightarrow> v)
      in if Object_is currentState newValue then c
         else enqueueRender
                (case map_of (hooks_state c) path of
                   Some stateArray \<Rightarrow>
                     c\<lparr>hooks_state :=
                          AList.update path (array_set stateArray cursor newValue) (hooks_state c)\<rparr>
                 | None \<Rightarrow> c))"

subsection \<open>useEffect\<close>

text \<open>\<open>prevHook?.cleanup ?? null\<close>, a procedure or null.\<close>

definition cleanup_of :: "prototypes \<Rightarrow> val \<Rightarrow> nat option" where
  "cleanup_of P hook =
     (case hook of
        VEffectHook d cleanup e \<Rightarrow> cleanup
      | _ \<Rightarrow>
          if is_nullish hook then None
          else (case get_prop P hook ''cleanup'' of VFun f \<Rightarrow> Some f | _ \<Rightarrow> None))"

definition useEffect ::
  "env \<Rightarrow> nat \<Rightarrow> val \<Rightarrow> 'a hook_store_scheme \<Rightarrow> error + 'a hook_store_scheme"
where
  "useEffect E effect deps c =
     (case currentPath c of
        None \<Rightarrow> Inl NoCurrentComponent
      | Some path \<Rightarrow>
          (let cursor = cursor_at c path;
               prevHook = array_get (hooks_at c path) cursor;
               depsChanged = (\<not> truthy prevHook \<or> deps = VUndefined \<or>
                              \<not> shallowEquals (protos E) (get_prop (protos E) prevHook ''deps'') deps);
               depsArray = (if isArray deps then deps else VNull);
               c1 = (if depsChanged then
                       (write_slot path cursor
                          (VEffectHook depsArray (cleanup_of (protos E) prevHook) effect) c)
                       \<lparr>effects_queue := effects_queue c @ [(path, cursor)]\<rparr>
                     else if truthy prevHook then write_slot path cursor prevHook c
                     else c)
           in Inr (c1\<lparr>hooks_cursor := (hooks_cursor c1)(path \<mapsto> cursor + 1)\<rparr>)))"

subsection \<open>The effect flush\<close>

text \<open>
  The body of the microtask that \<open>render\<close> schedules, over the snapshot
  \<open>effectsToRun\<close>. \<open>hookState && hookState[cursor]\<close> and the object test
  \<open>"effect" in hook\<close> select a stored hook object (a state value is taken not to
  imitate one); an entry that finds anything else is skipped.
\<close>

definition run_effect :: "env \<Rightarrow> string \<times> nat \<Rightarrow> context \<Rightarrow> context" where
  "run_effect E entry c =
     (case entry of (path, cursor) \<Rightarrow>
        (case map_of (hooks_state c) path of
           None \<Rightarrow> c
         | Some hookState \<Rightarrow>
             (case array_get hookState cursor of
                VEffectHook d cleanup effect \<Rightarrow>
                  (let c1 = (case cleanup of Some f \<Rightarrow> invoke f c | None \<Rightarrow> c);
                       c2 = invoke effect c1
                   in write_slot path cursor (VEffectHook d (effect_result E effect) effect) c2)
              | _ \<Rightarrow> c)))"

fun run_effects :: "env \<Rightarrow> (string \<times> nat) list \<Rightarrow> context \<Rightarrow> context" where
  "run_effects E [] c = c"
| "run_effects E (entry # es) c = run_effects E es (run_effect E entry c)"

section \<open>The platform adapter\<close>

text \<open>
  A platform call that succeeds is appended to the log; one that throws leaves the
  platform as it was. \<open>appendChild\<close> of a fresh widget to an element and
  \<open>removeChild\<close> of a child do not throw.
\<close>

definition emit :: "dom_op \<Rightarrow> context \<Rightarrow> context" where
  "emit op c = c\<lparr>dom_log := dom_log c @ [op]\<rparr>"

definition tag_of :: "context \<Rightarrow> nat \<Rightarrow> string" where
  \<comment> \<open>A text node has no tag.\<close>
  "tag_of c el = (case dom_tag c el of Some tag \<Rightarrow> tag | None \<Rightarrow> [])"

definition perform :: "env \<Rightarrow> string \<Rightarrow> dom_op \<Rightarrow> context \<Rightarrow> error + context" where
  "perform E tag op c = (if platform_rejects E tag op then Inl PlatformThrew else Inr (emit op c))"

definition createElement :: "env \<Rightarrow> string \<Rightarrow> context \<Rightarrow> error + (nat \<times> context)" where
  "createElement E tag c =
     (case perform E tag (CreateElement (dom_next c) tag)
             (c\<lparr>dom_next := Suc (dom_next c), dom_tag := (dom_tag c)(dom_next c \<mapsto> tag)\<rparr>) of
        Inl e \<Rightarrow> Inl e
      | Inr c1 \<Rightarrow> Inr (dom_next c, c1))"

definition createTextNode :: "env \<Rightarrow> val \<Rightarrow> context \<Rightarrow> error + (nat \<times> context)" where
  "createTextNode E text c =
     (case perform E [] (CreateTextNode (dom_next c) text) (c\<lparr>dom_next := Suc (dom_next c)\<rparr>) of
        Inl e \<Rightarrow> Inl e
      | Inr c1 \<Rightarrow> Inr (dom_next c, c1))"

definition appendChild :: "nat \<Rightarrow> nat \<Rightarrow> context \<Rightarrow> context" where
  "appendChild parent child c =
     emit (AppendChild parent child) (c\<lparr>dom_parent := (dom_parent c)(child \<mapsto> parent)\<rparr>)"

definition removeChild :: "nat \<Rightarrow> nat \<Rightarrow> context \<Rightarrow> context" where
  "removeChild parent child c =
     emit (RemoveChild parent child) (c\<lparr>dom_parent := (dom_parent c)(child := None)\<rparr>)"

definition key_in_dom :: "env \<Rightarrow> context \<Rightarrow> nat \<Rightarrow> string \<Rightarrow> bool" where
  "key_in_dom E c el key = has_dom_property E (tag_of c el) key"

definition lower_char :: "char \<Rightarrow> char" where
  "lower_char ch =
     (case map_of (zip ''ABCDEFGHIJKLMNOPQRSTUVWXYZ'' ''abcdefghijklmnopqrstuvwxyz'') ch of
        Some l \<Rightarrow> l | None \<Rightarrow> ch)"

definition eventType :: "string \<Rightarrow> string" where
  \<comment> \<open>\<open>key.toLowerCase().substring(2)\<close>\<close>
  "eventType key = drop 2 (map lower_char key)"

definition startsWith_on :: "string \<Rightarrow> bool" where
  "startsWith_on key = (take 2 key = ''on'')"

text \<open>\<open>Object.entries(value)\<close> for a value with \<open>typeof value === "object"\<close>: its
  own entries; it throws on \<open>null\<close>.\<close>

definition object_entries :: "val \<Rightarrow> error + (string \<times> val) list" where
  "object_entries v =
     (if v = VNull then Inl TypeError
      else Inr (map (\<lambda>k. (k, case own_prop v k of Some x \<Rightarrow> x | None \<Rightarrow> VUndefined))
                  (own_keys v)))"

fun set_styles :: "env \<Rightarrow> nat \<Rightarrow> (string \<times> val) list \<Rightarrow> context \<Rightarrow> error + context" where
  "set_styles E el [] c = Inr c"
| "set_styles E el ((styleKey, styleValue) # es) c =
     (case perform E (tag_of c el) (SetStyle el styleKey styleValue) c of
        Inl e \<Rightarrow> Inl e
      | Inr c1 \<Rightarrow> set_styles E el es c1)"

definition setDomProp :: "env \<Rightarrow> nat \<Rightarrow> string \<Rightarrow> val \<Rightarrow> context \<Rightarrow> error + context" where
  "setDomProp E el key v c =
     (if key = ''children'' then Inr c
      else if key = ''style'' \<and> typeof_object v then
        (case object_entries v of
           Inl e \<Rightarrow> Inl e
         | Inr es \<Rightarrow> set_styles E el es c)
      else if key = ''className'' then perform E (tag_of c el) (SetClassName el v) c
      else if startsWith_on key then
        perform E (tag_of c el) (AddEventListener el (eventType key) v) c
      else if key_in_dom E c el key then perform E (tag_of c el) (SetProperty el key v) c
      else perform E (tag_of c el) (SetAttribute el key v) c)"

fun setDomProps :: "env \<Rightarrow> nat \<Rightarrow> (string \<times> val) list \<Rightarrow> context \<Rightarrow> error + context" where
  "setDomProps E el [] c = Inr c"
| "setDomProps E el ((key, v) # props) c =
     (case setDomProp E el key v c of
        Inl e \<Rightarrow> Inl e
      | Inr c1 \<Rightarrow> setDomProps E el props c1)"

text \<open>
  The two passes of \<open>updateDomProps\<close>: over the keys of \<open>prevProps\<close>, then over the
  entries of \<open>nextProps\<close>. A props object holds its entries and inherits from
  \<open>Object.prototype\<close>: \<open>props[key]\<close> and \<open>key in props\<close> see both.
\<close>

definition prop_value :: "prototypes \<Rightarrow> (string \<times> val) list \<Rightarrow> string \<Rightarrow> val" where
  "prop_value P props key =
     (case map_of props key of
        Some v \<Rightarrow> v
      | None \<Rightarrow> (case object_proto P key of Some v \<Rightarrow> v | None \<Rightarrow> VUndefined))"

definition key_in_props :: "prototypes \<Rightarrow> (string \<times> val) list \<Rightarrow> string \<Rightarrow> bool" where
  "key_in_props P props key = (key \<in> set (map fst props) \<or> object_proto P key \<noteq> None)"

definition removeDomProp ::
  "env \<Rightarrow> nat \<Rightarrow> (string \<times> val) list \<Rightarrow> (string \<times> val) list \<Rightarrow> string \<Rightarrow> context
     \<Rightarrow> error + context"
where
  "removeDomProp E el prevProps nextProps key c =
     (if key = ''children'' then Inr c
      else if \<not> key_in_props (protos E) nextProps key then
        (if startsWith_on key then
           perform E (tag_of c el)
             (RemoveEventListener el (eventType key) (prop_value (protos E) prevProps key)) c
         else if key = ''className'' then perform E (tag_of c el) (SetClassName el (VStr [])) c
         else if key = ''style'' then perform E (tag_of c el) (RemoveAttribute el ''style'') c
         else if key_in_dom E c el key then
           perform E (tag_of c el) (SetProperty el key (VStr [])) c
         else perform E (tag_of c el) (RemoveAttribute el key) c)
      else Inr c)"

fun removeDomProps ::
  "env \<Rightarrow> nat \<Rightarrow> (string \<times> val) list \<Rightarrow> (string \<times> val) list \<Rightarrow> string list \<Rightarrow> context
     \<Rightarrow> error + context"
where
  "removeDomProps E el prevProps nextProps [] c = Inr c"
| "removeDomProps E el prevProps nextProps (key # keys) c =
     (case removeDomProp E el prevProps nextProps key c of
        Inl e \<Rightarrow> Inl e
      | Inr c1 \<Rightarrow> removeDomProps E el prevProps nextProps keys c1)"

definition updateDomProp ::
  "env \<Rightarrow> nat \<Rightarrow> (string \<times> val) list \<Rightarrow> string \<Rightarrow> val \<Rightarrow> context \<Rightarrow> error + context"
where
  "updateDomProp E el prevProps key v c =
     (if key = ''children'' then Inr c
      else
        (let prevValue = prop_value (protos E) prevProps key
         in if strict_eq prevValue v then Inr c
            else if key = ''style'' \<and> typeof_object v then
              (case object_entries v of
                 Inl e \<Rightarrow> Inl e
               | Inr es \<Rightarrow> set_styles E el es c)
            else if key = ''className'' then perform E (tag_of c el) (SetClassName el v) c
            else if startsWith_on key then
              (case (if truthy prevValue
                     then perform E (tag_of c el)
                            (RemoveEventListener el (eventType key) prevValue) c
                     else Inr c) of
                 Inl e \<Rightarrow> Inl e
               | Inr c1 \<Rightarrow>
                   perform E (tag_of c1 el) (AddEventListener el (eventType key) v) c1)
            else if key_in_dom E c el key then perform E (tag_of c el) (SetProperty el key v) c
            else perform E (tag_of c el) (SetAttribute el key v) c))"

fun updateDomProps_entries ::
  "env \<Rightarrow> nat \<Rightarrow> (string \<times> val) list \<Rightarrow> (string \<times> val) list \<Rightarrow> context \<Rightarrow> error + context"
where
  "updateDomProps_entries E el prevProps [] c = Inr c"
| "updateDomProps_entries E el prevProps ((key, v) # entries) c =
     (case updateDomProp E el prevProps key v c of
        Inl e \<Rightarrow> Inl e
      | Inr c1 \<Rightarrow> updateDomProps_entries E el prevProps entries c1)"

definition updateDomProps ::
  "env \<Rightarrow> nat \<Rightarrow> (string \<times> val) list \<Rightarrow> (string \<times> val) list \<Rightarrow> context \<Rightarrow> error + context"
where
  "updateDomProps E el prevProps nextProps c =
     (case removeDomProps E el prevProps nextProps (map fst prevProps) c of
        Inl e \<Rightarrow> Inl e
      | Inr c1 \<Rightarrow> updateDomProps_entries E el prevProps nextProps c1)"

fun getDomNodes_of :: "instance \<Rightarrow> nat list"
  and getDomNodes_children :: "instance option list \<Rightarrow> nat list"
where
  "getDomNodes_of (Instance k d n children key path) =
     (case d of Some w \<Rightarrow> [w] | None \<Rightarrow> getDomNodes_children children)"
| "getDomNodes_children [] = []"
| "getDomNodes_children (None # children) = getDomNodes_children children"
| "getDomNodes_children (Some child # children) =
     getDomNodes_of child @ getDomNodes_children children"

definition getDomNodes :: "instance option \<Rightarrow> nat list" where
  "getDomNodes i = (case i of None \<Rightarrow> [] | Some inst \<Rightarrow> getDomNodes_of inst)"

fun remove_nodes :: "nat \<Rightarrow> nat list \<Rightarrow> context \<Rightarrow> context" where
  "remove_nodes parentDom [] c = c"
| "remove_nodes parentDom (node # nodes) c =
     remove_nodes parentDom nodes
       (if dom_parent c node = Some parentDom then removeChild parentDom node c else c)"

definition removeInstance :: "nat \<Rightarrow> instance option \<Rightarrow> context \<Rightarrow> context" where
  "removeInstance parentDom i c =
     (case i of None \<Rightarrow> c | Some inst \<Rightarrow> remove_nodes parentDom (getDomNodes (Some inst)) c)"

section \<open>The reconciler\<close>

text \<open>
  \<open>reconcile\<close>, \<open>mount\<close>, \<open>update\<close> and \<open>reconcileChildren\<close> call each other, and a
  component may render itself without end. The recursive call is the parameter \<open>rec\<close>
  of \<open>mount\<close>, \<open>update\<close> and \<open>reconcileChildren\<close>; \<open>reconcile\<close> closes the knot
  with a bound on the nesting depth and answers \<open>OutOfFuel\<close> beyond it. An instance is
  mutated in place in the source and returned; here the updated instance is returned.
\<close>

type_synonym reconciler =
  "nat \<Rightarrow> instance option \<Rightarrow> vnode option \<Rightarrow> string \<Rightarrow> context
     \<Rightarrow> error + (instance option \<times> context)"

definition old_child_at :: "instance option list \<Rightarrow> nat \<Rightarrow> instance option" where
  \<comment> \<open>\<open>oldChildren[i] || null\<close>\<close>
  "old_child_at oldChildren i = (if i < length oldChildren then oldChildren ! i else None)"

definition new_child_at :: "vnode list \<Rightarrow> nat \<Rightarrow> vnode option" where
  \<comment> \<open>\<open>newChildren[i] || null\<close>\<close>
  "new_child_at newChildren i = (if i < length newChildren then Some (newChildren ! i) else None)"

definition child_path ::
  "env \<Rightarrow> string \<Rightarrow> instance option \<Rightarrow> vnode option \<Rightarrow> nat \<Rightarrow> vnode list \<Rightarrow> string"
where
  "child_path E parentPath oldChild newChild i newChildren =
     (case newChild of
        Some n \<Rightarrow> createChildPath E parentPath (node_key n) i (Some (node_type n)) (Some newChildren)
      | None \<Rightarrow>
          (case oldChild of
             Some old \<Rightarrow> if inst_path old \<noteq> [] then inst_path old
                         else parentPath @ ''.i'' @ number_string E i
           | None \<Rightarrow> parentPath @ ''.i'' @ number_string E i))"

function reconcileChildren_from ::
  "reconciler \<Rightarrow> env \<Rightarrow> nat \<Rightarrow> string \<Rightarrow> instance option list \<Rightarrow> vnode list \<Rightarrow> nat \<Rightarrow> nat
     \<Rightarrow> instance option list \<Rightarrow> context \<Rightarrow> error + (instance option list \<times> context)"
where
  "reconcileChildren_from rec E parentDom parentPath oldChildren newChildren maxLength i newInstances c =
     (if i < maxLength then
        (let oldChild = old_child_at oldChildren i;
             newChild = new_child_at newChildren i;
             childPath = child_path E parentPath oldChild newChild i newChildren
         in case rec parentDom oldChild newChild childPath c of
              Inl e \<Rightarrow> Inl e
            | Inr (inst, c1) \<Rightarrow>
                reconcileChildren_from rec E parentDom parentPath oldChildren newChildren maxLength
                  (Suc i) (newInstances @ [inst]) c1)
      else Inr (newInstances, c))"
  by pat_completeness auto
termination
  by (relation "measure (\<lambda>(rec, E, parentDom, parentPath, oldChildren, newChildren, maxLength, i,
                              newInstances, c). maxLength - i)") auto

declare reconcileChildren_from.simps [simp del]

definition reconcileChildren ::
  "reconciler \<Rightarrow> env \<Rightarrow> nat \<Rightarrow> instance \<Rightarrow> vnode list \<Rightarrow> context
     \<Rightarrow> error + (instance option list \<times> context)"
where
  "reconcileChildren rec E parentDom parentInstance newChildren c =
     reconcileChildren_from rec E parentDom (inst_path parentInstance)
       (inst_children parentInstance) newChildren
       (max (length (inst_children parentInstance)) (length newChildren)) 0 [] c"

text \<open>The visit protocol around a component call: push the path, reset its cursor,
  mark it visited; pop after the body has returned.\<close>

definition enter_component :: "string \<Rightarrow> 'a hook_store_scheme \<Rightarrow> 'a hook_store_scheme" where
  "enter_component path c =
     c\<lparr>hooks_componentStack := hooks_componentStack c @ [path],
       hooks_cursor := (hooks_cursor c)(path \<mapsto> 0),
       hooks_visited := insert path (hooks_visited c)\<rparr>"

definition leave_component :: "'a hook_store_scheme \<Rightarrow> 'a hook_store_scheme" where
  "leave_component c = c\<lparr>hooks_componentStack := butlast (hooks_componentStack c)\<rparr>"

definition render_child ::
  "reconciler \<Rightarrow> env \<Rightarrow> nat \<Rightarrow> instance option \<Rightarrow> nat \<Rightarrow> vnode \<Rightarrow> string \<Rightarrow> context
     \<Rightarrow> error + (instance option list \<times> context)"
where
  \<comment> \<open>The component branch shared by \<open>mount\<close> (with \<open>oldChild = null\<close>) and \<open>update\<close>:
      run the body, reconcile its one child, return the new \<open>children\<close>.\<close>
  "render_child rec E parentDom oldChild f node path c =
     (case comp_body (components E f) (node_props node) (node_children node)
             (store_of (enter_component path c)) of
        Inl e \<Rightarrow> Inl e
      | Inr (childNode, h) \<Rightarrow>
          (let c2 = leave_component (with_store h c);
               childPath = createChildPath E path None 0 (map_option node_type childNode)
                             (Some (case childNode of Some n \<Rightarrow> [n] | None \<Rightarrow> []))
           in case rec parentDom oldChild childNode childPath c2 of
                Inl e \<Rightarrow> Inl e
              | Inr (childInstance, c3) \<Rightarrow>
                  Inr (case childInstance of Some ci \<Rightarrow> [Some ci] | None \<Rightarrow> [], c3)))"

definition text_value :: "env \<Rightarrow> (string \<times> val) list \<Rightarrow> val" where
  \<comment> \<open>\<open>props.nodeValue || ""\<close>\<close>
  "text_value E props =
     (if truthy (prop_value (protos E) props ''nodeValue'')
      then prop_value (protos E) props ''nodeValue'' else VStr [])"

definition mount ::
  "reconciler \<Rightarrow> env \<Rightarrow> nat \<Rightarrow> vnode \<Rightarrow> string \<Rightarrow> context \<Rightarrow> error + (instance \<times> context)"
where
  "mount rec E parentDom node path c =
     (case node_type node of
        Fragment \<Rightarrow>
          (let inst = Instance FRAGMENT None node [] (node_key node) path
           in case reconcileChildren rec E parentDom inst (node_children node) c of
                Inl e \<Rightarrow> Inl e
              | Inr (children, c1) \<Rightarrow>
                  Inr (Instance FRAGMENT None node children (node_key node) path, c1))
      | Component f \<Rightarrow>
          (case render_child rec E parentDom None f node path c of
             Inl e \<Rightarrow> Inl e
           | Inr (children, c1) \<Rightarrow>
               Inr (Instance COMPONENT None node children (node_key node) path, c1))
      | TEXT_ELEMENT \<Rightarrow>
          (case createTextNode E (text_value E (node_props node)) c of
             Inl e \<Rightarrow> Inl e
           | Inr (textNode, c1) \<Rightarrow>
               Inr (Instance TEXT (Some textNode) node [] (node_key node) path,
                    appendChild parentDom textNode c1))
      | HostTag tag \<Rightarrow>
          (case createElement E tag c of
             Inl e \<Rightarrow> Inl e
           | Inr (el, c1) \<Rightarrow>
               (let inst = Instance HOST (Some el) node [] (node_key node) path
                in case setDomProps E el (node_props node) c1 of
                     Inl e \<Rightarrow> Inl e
                   | Inr c2 \<Rightarrow>
                       (case reconcileChildren rec E el inst (node_children node) c2 of
                          Inl e \<Rightarrow> Inl e
                        | Inr (children, c3) \<Rightarrow>
                            Inr (Instance HOST (Some el) node children (node_key node) path,
                                 appendChild parentDom el c3)))))"

definition update ::
  "reconciler \<Rightarrow> env \<Rightarrow> nat \<Rightarrow> instance \<Rightarrow> vnode \<Rightarrow> string \<Rightarrow> context
     \<Rightarrow> error + (instance \<times> context)"
where
  "update rec E parentDom inst0 node path c =
     (let prevProps = node_props (inst_node inst0);
          inst = Instance (inst_kind inst0) (inst_dom inst0) node (inst_children inst0)
                   (inst_key inst0) path
      in case node_type node of
           Fragment \<Rightarrow>
             (case reconcileChildren rec E parentDom inst (node_children node) c of
                Inl e \<Rightarrow> Inl e
              | Inr (children, c1) \<Rightarrow>
                  Inr (Instance (inst_kind inst) (inst_dom inst) node children (inst_key inst) path,
                       c1))
         | Component f \<Rightarrow>
             (case render_child rec E parentDom
                     (case inst_children inst of [] \<Rightarrow> None | child # _ \<Rightarrow> child)
                     f node path c of
                Inl e \<Rightarrow> Inl e
              | Inr (children, c1) \<Rightarrow>
                  Inr (Instance (inst_kind inst) (inst_dom inst) node children (inst_key inst) path,
                       c1))
         | _ \<Rightarrow>
             (if node_type node = TEXT_ELEMENT \<and> inst_dom inst \<noteq> None then
                (case perform E (tag_of c (the (inst_dom inst)))
                        (SetNodeValue (the (inst_dom inst)) (text_value E (node_props node))) c of
                   Inl e \<Rightarrow> Inl e
                 | Inr c1 \<Rightarrow> Inr (inst, c1))
              else if inst_kind inst = HOST \<and> inst_dom inst \<noteq> None then
                (case updateDomProps E (the (inst_dom inst)) prevProps (node_props node) c of
                   Inl e \<Rightarrow> Inl e
                 | Inr c1 \<Rightarrow>
                     (case reconcileChildren rec E (the (inst_dom inst)) inst
                             (node_children node) c1 of
                        Inl e \<Rightarrow> Inl e
                      | Inr (children, c2) \<Rightarrow>
                          Inr (Instance (inst_kind inst) (inst_dom inst) node children
                                 (inst_key inst) path, c2)))
              else Inr (inst, c)))"

definition reconcile_step :: "reconciler \<Rightarrow> env \<Rightarrow> reconciler" where
  "reconcile_step rec E parentDom i node path c =
     (case node of
        None \<Rightarrow> Inr (None, removeInstance parentDom i c)
      | Some n \<Rightarrow>
          (case i of
             None \<Rightarrow>
               (case mount rec E parentDom n path c of
                  Inl e \<Rightarrow> Inl e
                | Inr (inst, c1) \<Rightarrow> Inr (Some inst, c1))
           | Some old \<Rightarrow>
               if node_type (inst_node old) \<noteq> node_type n \<or> node_key (inst_node old) \<noteq> node_key n
               then
                 (case mount rec E parentDom n path (removeInstance parentDom (Some old) c) of
                    Inl e \<Rightarrow> Inl e
                  | Inr (inst, c1) \<Rightarrow> Inr (Some inst, c1))
               else
                 (case update rec E parentDom old n path c of
                    Inl e \<Rightarrow> Inl e
                  | Inr (inst, c1) \<Rightarrow> Inr (Some inst, c1))))"

fun reconcile :: "env \<Rightarrow> nat \<Rightarrow> reconciler" where
  "reconcile E 0 = (\<lambda>parentDom i node path c. Inl OutOfFuel)"
| "reconcile E (Suc fuel) = reconcile_step (reconcile E fuel) E"

section \<open>The render pass\<close>

definition reset_pass :: "context \<Rightarrow> context" where
  \<comment> \<open>\<open>cursor.clear(); visited.clear(); componentStack = []\<close>\<close>
  "reset_pass c =
     c\<lparr>hooks_cursor := Map.empty, hooks_visited := {}, hooks_componentStack := []\<rparr>"

definition schedule_effects :: "context \<Rightarrow> context" where
  \<comment> \<open>Step 4 of \<open>render\<close>: snapshot the queue, clear it, hand a non-empty snapshot to
      \<open>queueMicrotask\<close>.\<close>
  "schedule_effects c =
     (let effectsToRun = effects_queue c;
          c1 = c\<lparr>effects_queue := []\<rparr>
      in if length effectsToRun > 0 then c1\<lparr>microtasks := microtasks c1 @ [effectsToRun]\<rparr>
         else c1)"

definition render :: "env \<Rightarrow> nat \<Rightarrow> context \<Rightarrow> error + context" where
  "render E fuel c =
     (let c1 = reset_pass c
      in case reconcile E fuel (root_container c1) (root_instance c1) (root_node c1) [] c1 of
           Inl e \<Rightarrow> Inl e
         | Inr (inst, c2) \<Rightarrow>
             Inr (schedule_effects (cleanupUnusedHooks (c2\<lparr>root_instance := inst\<rparr>))))"

section \<open>Specification-level notions\<close>

text \<open>The cleanup procedures stored in a slot array, in slot order: the non-null
  \<open>cleanup\<close> of every effect slot.\<close>

fun stored_cleanups :: "val list \<Rightarrow> nat list" where
  "stored_cleanups [] = []"
| "stored_cleanups (hook # hs) =
     (case hook of
        VEffectHook d cleanup e \<Rightarrow>
          (case cleanup of Some f \<Rightarrow> f # stored_cleanups hs | None \<Rightarrow> stored_cleanups hs)
      | _ \<Rightarrow> stored_cleanups hs)"

text \<open>The cleanup procedures stored under a path (none for a path not in the table).\<close>

definition cleanups_at :: "context \<Rightarrow> string \<Rightarrow> nat list" where
  "cleanups_at c path = (case map_of (hooks_state c) path of Some hs \<Rightarrow> stored_cleanups hs | None \<Rightarrow> [])"

text \<open>
  Children reconciliation in the words of the specification: old and new children are
  paired by index, for every index below the larger of the two counts, and the pairs are
  reconciled in that order, each at its child path.
\<close>

definition index_pairs ::
  "env \<Rightarrow> string \<Rightarrow> instance option list \<Rightarrow> vnode list
     \<Rightarrow> (instance option \<times> vnode option \<times> string) list"
where
  "index_pairs E parentPath oldChildren newChildren =
     map (\<lambda>i. (old_child_at oldChildren i, new_child_at newChildren i,
                child_path E parentPath (old_child_at oldChildren i) (new_child_at newChildren i)
                  i newChildren))
       [0..<max (length oldChildren) (length newChildren)]"

fun reconcile_pairs ::
  "reconciler \<Rightarrow> nat \<Rightarrow> (instance option \<times> vnode option \<times> string) list
     \<Rightarrow> instance option list \<Rightarrow> context \<Rightarrow> error + (instance option list \<times> context)"
where
  "reconcile_pairs rec parentDom [] done c = Inr (done, c)"
| "reconcile_pairs rec parentDom ((oldChild, newChild, childPath) # pairs) done c =
     (case rec parentDom oldChild newChild childPath c of
        Inl e \<Rightarrow> Inl e
      | Inr (inst, c1) \<Rightarrow> reconcile_pairs rec parentDom pairs (done @ [inst]) c1)"

text \<open>
  The widgets under an instance, as the specification's unmount has them: the widget of
  the instance itself when it has one, else the widgets under its children.
\<close>

fun top_widget :: "instance \<Rightarrow> nat \<Rightarrow> bool"
  and top_widget_children :: "instance option list \<Rightarrow> nat \<Rightarrow> bool"
where
  "top_widget (Instance k d node children key path) w =
     (case d of Some own \<Rightarrow> own = w | None \<Rightarrow> top_widget_children children w)"
| "top_widget_children [] w = False"
| "top_widget_children (None # children) w = top_widget_children children w"
| "top_widget_children (Some child # children) w =
     (top_widget child w \<or> top_widget_children children w)"

text \<open>\<open>extends rec rec'\<close>: wherever \<open>rec\<close> returns, \<open>rec'\<close> returns the same.\<close>

definition extends :: "reconciler \<Rightarrow> reconciler \<Rightarrow> bool" where
  "extends rec rec' =
     (\<forall>parentDom i node path c r. rec parentDom i node path c = Inr r \<longrightarrow>
                                   rec' parentDom i node path c = Inr r)"

section \<open>Platform traces\<close>







section \<open>A sample application\<close>

text \<open>
  A counter component (one state slot, one effect with an empty dependency array, a
  button with a class and a click handler) under a \<open>div\<close> with a text sibling; the
  container is widget \<open>0\<close>. Procedure \<open>7\<close> is the effect and returns cleanup \<open>9\<close>.
\<close>

definition ex_base :: env where
  "ex_base =
     \<lparr>components = (\<lambda>f. \<lparr>comp_displayName = None, comp_name = [],
                             comp_body = (\<lambda>props children c. Inr (None, c))\<rparr>),
      effect_result = (\<lambda>f. if f = 7 then Some 9 else None),
      call_fn = (\<lambda>f args. case args of [VNum n] \<Rightarrow> VNum (n + 1) | _ \<Rightarrow> VNum 0),
      has_dom_property = (\<lambda>tag key. key = ''value''),
      protos = \<lparr>object_proto = [''constructor'' \<mapsto> VFun 100],
                array_proto = [''constructor'' \<mapsto> VFun 101],
                other_proto = (\<lambda>v. Map.empty)\<rparr>,
      exponent_string = (\<lambda>n. ''1e+21''),
      platform_rejects = (\<lambda>tag op. False)\<rparr>"

definition ex_text :: "string \<Rightarrow> vnode" where
  "ex_text s = VNode TEXT_ELEMENT None [(''nodeValue'', VStr s)] []"

definition Counter :: component where
  "Counter =
     \<lparr>comp_displayName = None, comp_name = ''Counter'',
      comp_body = (\<lambda>props children c.
        case useState ex_base (VNum 0) c of
          Inl e \<Rightarrow> Inl e
        | Inr ((state, setCount), c1) \<Rightarrow>
            (case useEffect ex_base 7 (VArr 1 []) c1 of
               Inl e \<Rightarrow> Inl e
             | Inr c2 \<Rightarrow>
                 Inr (Some (VNode (HostTag ''button'') None
                              [(''className'', VStr ''counter''), (''onClick'', VFun 3)]
                              [ex_text ''count'']), c2)))\<rparr>"

text \<open>A component whose child shows its state, and one with a \<open>displayName\<close>.\<close>

definition Label :: component where
  "Label =
     \<lparr>comp_displayName = None, comp_name = ''Label'',
      comp_body = (\<lambda>props children c.
        case useState ex_base (VStr ''n'') c of
          Inl e \<Rightarrow> Inl e
        | Inr ((state, setLabel), c1) \<Rightarrow>
            Inr (Some (VNode TEXT_ELEMENT None [(''nodeValue'', state)] []), c1))\<rparr>"

definition Fancy :: component where
  "Fancy =
     \<lparr>comp_displayName = Some ''Fancy'', comp_name = ''F'',
      comp_body = (\<lambda>props children c. Inr (None, c))\<rparr>"

definition ex_env :: env where
  "ex_env =
     ex_base\<lparr>components :=
               (\<lambda>f. if f = 1 then Counter else if f = 2 then Label else if f = 3 then Fancy
                    else components ex_base f)\<rparr>"

definition ex_context :: "context" where
  "ex_context =
     \<lparr>hooks_state = [], hooks_cursor = Map.empty, hooks_visited = {}, hooks_componentStack = [],
      effects_queue = [], calls = [], renders_enqueued = 0, microtasks = [],
      root_container = 0, root_node = None, root_instance = None,
      dom_parent = Map.empty, dom_tag = [0 \<mapsto> ''div''], dom_next = 1, dom_log = []\<rparr>"


definition ex_app :: vnode where
  "ex_app = VNode (HostTag ''div'') None [(''id'', VStr ''app'')]
              [VNode (Component 1) None [] [], ex_text ''hello'']"

text \<open>A context in which the counter at path \<open>.cCounter_0\<close> is executing, its state
  slot and its effect slot (dependency array \<open>[1]\<close>, cleanup \<open>9\<close>) stored by an earlier
  pass and the cursor standing at the effect slot.\<close>

definition ex_running :: "context" where
  "ex_running =
     ex_context\<lparr>hooks_state := [(''.cCounter_0'', [VNum 0, VEffectHook (VArr 1 [VNum 1]) (Some 9) 7])],
                hooks_cursor := [''.cCounter_0'' \<mapsto> 1],
                hooks_visited := {''.cCounter_0''},
                hooks_componentStack := [''.cCounter_0'']\<rparr>"

text \<open>A context after a pass that visited the counter only: the slot table still holds
  the slots of a component at \<open>.cGone_0\<close> that was not rendered, with one stored
  cleanup (procedure \<open>11\<close>).\<close>

definition ex_stale :: "context" where
  "ex_stale =
     ex_context\<lparr>hooks_state :=
                  [(''.cGone_0'', [VEffectHook VNull (Some 11) 10, VNum 3, VEffectHook VNull None 12]),
                   (''.cCounter_0'', [VNum 0, VEffectHook (VArr 1 [VNum 1]) (Some 9) 7])],
                hooks_cursor := [''.cGone_0'' \<mapsto> 3, ''.cCounter_0'' \<mapsto> 2],
                hooks_visited := {''.cCounter_0''}\<rparr>"

text \<open>The instance of a mounted text node \<open>hello\<close> backed by widget \<open>4\<close>.\<close>

definition ex_old :: "instance" where
  "ex_old = Instance TEXT (Some 4) (ex_text ''hello'') [] None ''.i1''"

text \<open>A fragment instance at path \<open>.k7\<close> with two children.\<close>

definition ex_parent :: "instance" where
  "ex_parent = Instance FRAGMENT None (VNode Fragment None [] []) [Some ex_old, Some ex_old] None ''.k7''"

text \<open>The counter alone as root node, before the first pass.\<close>

definition ex_root :: "context" where
  "ex_root = ex_context\<lparr>root_node := Some (VNode (Component 1) None [] [])\<rparr>"






text \<open>The instance tree of the mounted sample application.\<close>

definition ex_app_instance :: "instance" where
  "ex_app_instance =
     Instance HOST (Some 1) ex_app
       [Some (Instance COMPONENT None (VNode (Component 1) None [] [])
                [Some (Instance HOST (Some 2)
                         (VNode (HostTag ''button'') None
                            [(''className'', VStr ''counter''), (''onClick'', VFun 3)]
                            [ex_text ''count''])
                         [Some (Instance TEXT (Some 3) (ex_text ''count'') [] None ''.cCounter_0.i0.i0'')]
                         None ''.cCounter_0.i0'')]
                None ''.cCounter_0''),
        Some (Instance TEXT (Some 4) (ex_text ''hello'') [] None ''.i1'')]
       None []"

text \<open>The mounted children of the sample application as the children of a fragment
  instance: the button (widget \<open>2\<close>) and the text (widget \<open>4\<close>) are children of the
  container, the button's text (widget \<open>3\<close>) is a child of the button.\<close>

definition ex_group :: "instance" where
  "ex_group =
     Instance FRAGMENT None
       (VNode Fragment None [] [VNode (Component 1) None [] [], ex_text ''hello''])
       (inst_children ex_app_instance) None []"

definition ex_group_context :: "context" where
  "ex_group_context = ex_context\<lparr>dom_parent := [2 \<mapsto> 0, 3 \<mapsto> 2, 4 \<mapsto> 0], dom_next := 5\<rparr>"


text \<open>Five siblings: the counter, the component with a display name, the counter with
  a key, the counter again, and a component function with neither display name nor
  name.\<close>

definition ex_siblings :: "vnode list" where
  "ex_siblings =
     [VNode (Component 1) None [] [], VNode (Component 3) None [] [],
      VNode (Component 1) (Some ''a'') [] [], VNode (Component 1) None [] [],
      VNode (Component 9) None [] []]"


section \<open>Properties of the equality utilities\<close>

lemma shallowEquals_non_object:
  "\<not> Object_is a b \<Longrightarrow>
   is_nullish a \<or> is_nullish b \<or> \<not> typeof_object a \<or> \<not> typeof_object b \<Longrightarrow>
   \<not> shallowEquals P a b"
  by (simp add: shallowEquals_def)

lemma deepEquals_non_object:
  "\<not> Object_is a b \<Longrightarrow>
   is_nullish a \<or> is_nullish b \<or> \<not> typeof_object a \<or> \<not> typeof_object b \<Longrightarrow>
   \<not> deepEquals P a b"
  by simp

lemma shallowEquals_array_vs_object:
  "\<not> shallowEquals P (VArr i xs) (VObj j kvs)" "\<not> shallowEquals P (VObj j kvs) (VArr i xs)"
  by (simp_all add: shallowEquals_def Object_is_def is_nullish_def)

text \<open>
  Both comparators compare the key counts and then read every key of \<open>a\<close> from \<open>b\<close>;
  a key that \<open>b\<close> does not own is read through its prototype chain. So
  \<open>{constructor: Object}\<close> and \<open>{a: 1}\<close> compare equal.
\<close>

lemma deepEquals_inherited:
  assumes "object_proto P ''constructor'' = Some (VFun k)"
  shows "deepEquals P (VObj 1 [(''constructor'', VFun k)]) (VObj 2 [(''a'', VNum 1)])"
    and "shallowEquals P (VObj 1 [(''constructor'', VFun k)]) (VObj 2 [(''a'', VNum 1)])"
  using assms
  by (simp_all add: Object_is_def is_nullish_def shallowEquals_def get_prop_def inherited_def)

text \<open>
  Claim C9. Both comparators are total, and both answer "not equal" for non-identical
  inputs of which one is null, undefined or not an object (the two lemmas above).
  \<open>shallowEquals\<close> also answers "not equal" when exactly one input is an array.
  \<open>deepEquals\<close> has no such test: an array and a plain object with the same keys and
  deep-equal values fall through to the key loop and compare equal. Here
  \<open>deepEquals(["a"], {0: "a"})\<close> is true while \<open>shallowEquals\<close> of the same pair is
  false.
\<close>

theorem deepEquals_array_vs_object_equal:
  "deepEquals P (VArr 1 [VStr ''a'']) (VObj 2 [(''0'', VStr ''a'')]) = True \<and>
   shallowEquals P (VArr 1 [VStr ''a'']) (VObj 2 [(''0'', VStr ''a'')]) = False"
  by (simp add: Object_is_def is_nullish_def shallowEquals_def get_prop_def
        string_of_nat.simps digit_char_def)

text \<open>So there are an array and a non-array object that \<open>deepEquals\<close> holds equal.\<close>

theorem deepEquals_array_vs_object_equal_witness:
  "\<exists>a b. isArray a \<and> \<not> isArray b \<and> typeof_object b \<and>
          deepEquals (protos ex_base) a b \<and> \<not> shallowEquals (protos ex_base) a b"
proof -
  have d: "deepEquals (protos ex_base) (VArr 1 [VStr ''a'']) (VObj 2 [(''0'', VStr ''a'')])"
    and s: "\<not> shallowEquals (protos ex_base) (VArr 1 [VStr ''a'']) (VObj 2 [(''0'', VStr ''a'')])"
    using deepEquals_array_vs_object_equal [of "protos ex_base"] by blast+
  have "isArray (VArr 1 [VStr ''a''])" "\<not> isArray (VObj 2 [(''0'', VStr ''a'')])"
    "typeof_object (VObj 2 [(''0'', VStr ''a'')])"
    by simp_all
  with d s show ?thesis by blast
qed

section \<open>Properties of the path assigner\<close>

lemma count_before:
  "length (filter P (take i s)) = card {j. j < i \<and> j < length s \<and> P (s ! j)}"
proof -
  have "{j. j < length (take i s) \<and> P (take i s ! j)} = {j. j < i \<and> j < length s \<and> P (s ! j)}"
    by auto
  then show ?thesis by (simp add: length_filter_conv_card)
qed

lemma sameTypeCount_card:
  "card {j. j < i \<and> j < length s \<and> node_type (s ! j) = Component f \<and> node_key (s ! j) = None} =
   length (filter (\<lambda>sibling. node_type sibling = Component f \<and> node_key sibling = None)
             (take i s))"
  by (rule count_before [symmetric])

lemma fuel_4: "(4::nat) = Suc (Suc (Suc (Suc 0)))"
  by simp

lemma number_string_digit:
  "number_string E 0 = ''0''" "number_string E (Suc 0) = ''1''"
  by (simp_all add: number_string_def string_of_nat.simps digit_char_def)

lemma number_string_decimal:
  "n < 1000000000000000000000 \<Longrightarrow> number_string E n = string_of_nat n"
  by (simp add: number_string_def)

text \<open>From \<open>1e21\<close> on a number is printed in exponent form.\<close>

lemma number_string_exponent:
  "1000000000000000000000 \<le> n \<Longrightarrow> number_string E n = exponent_string E n"
  by (simp add: number_string_def)

text \<open>
  Claim C3. With a key \<open>k\<close> the path is \<open>p.kk\<close>. Without a key and with a component
  function \<open>f\<close> as type it is \<open>p.cName_N\<close>: \<open>N\<close> is the number of positions \<open>j\<close>
  strictly before \<open>i\<close> in the sibling array whose node has type \<open>f\<close> and no key (\<open>0\<close>
  without a sibling array), and \<open>Name\<close> is the function's \<open>displayName\<close> when it has
  a non-empty one, else the name the function was declared with when that is non-empty,
  else the placeholder \<open>Component\<close>. Otherwise the path is \<open>p.ii\<close>. A number below
  \<open>1e21\<close> is printed in decimal.
\<close>

theorem createChildPath_cases:
  "createChildPath E p (Some k) i t s = p @ ''.k'' @ k \<and>
   createChildPath E p None i (Some (Component f)) (Some sibs) =
     p @ ''.c'' @ componentName (components E f) @ ''_'' @
     number_string E (card {j. j < i \<and> j < length sibs \<and>
                               node_type (sibs ! j) = Component f \<and> node_key (sibs ! j) = None}) \<and>
   createChildPath E p None i (Some (Component f)) None =
     p @ ''.c'' @ componentName (components E f) @ ''_'' @ number_string E 0 \<and>
   (\<forall>d. comp_displayName g = Some d \<and> d \<noteq> [] \<longrightarrow> componentName g = d) \<and>
   ((comp_displayName g = None \<or> comp_displayName g = Some []) \<and> comp_name g \<noteq> [] \<longrightarrow>
      componentName g = comp_name g) \<and>
   ((comp_displayName g = None \<or> comp_displayName g = Some []) \<and> comp_name g = [] \<longrightarrow>
      componentName g = ''Component'') \<and>
   ((\<forall>h. t \<noteq> Some (Component h)) \<longrightarrow>
      createChildPath E p None i t s = p @ ''.i'' @ number_string E i) \<and>
   (n < 1000000000000000000000 \<longrightarrow> number_string E n = string_of_nat n)"
proof (intro conjI allI impI)
  show "createChildPath E p (Some k) i t s = p @ ''.k'' @ k"
    by (simp add: createChildPath_def)
  show "createChildPath E p None i (Some (Component f)) (Some sibs) =
     p @ ''.c'' @ componentName (components E f) @ ''_'' @
     number_string E (card {j. j < i \<and> j < length sibs \<and>
                               node_type (sibs ! j) = Component f \<and> node_key (sibs ! j) = None})"
    by (simp add: createChildPath_def sameTypeCount_card)
  show "createChildPath E p None i (Some (Component f)) None =
     p @ ''.c'' @ componentName (components E f) @ ''_'' @ number_string E 0"
    by (simp add: createChildPath_def)
next
  fix d assume "comp_displayName g = Some d \<and> d \<noteq> []"
  then show "componentName g = d" by (simp add: componentName_def)
next
  assume "(comp_displayName g = None \<or> comp_displayName g = Some []) \<and> comp_name g \<noteq> []"
  then show "componentName g = comp_name g" by (auto simp: componentName_def)
next
  assume "(comp_displayName g = None \<or> comp_displayName g = Some []) \<and> comp_name g = []"
  then show "componentName g = ''Component''" by (auto simp: componentName_def)
next
  assume "\<forall>h. t \<noteq> Some (Component h)"
  then show "createChildPath E p None i t s = p @ ''.i'' @ number_string E i"
    by (auto simp: createChildPath_def split: option.splits node_type.splits)
next
  assume "n < 1000000000000000000000"
  then show "number_string E n = string_of_nat n" by (rule number_string_decimal)
qed

text \<open>
  Among the sample siblings the second unkeyed counter (index \<open>3\<close>) is \<open>p.cCounter_1\<close>:
  the keyed counter before it is not counted. The component with a display name is
  \<open>p.cFancy_0\<close>, the one without any name \<open>p.cComponent_0\<close>, the keyed counter
  \<open>p.ka\<close> and a host child at index \<open>1\<close> \<open>p.i1\<close>.
\<close>

theorem createChildPath_cases_witness:
  "createChildPath ex_env ''p'' None 3 (Some (Component 1)) (Some ex_siblings) = ''p.cCounter_1'' \<and>
   createChildPath ex_env ''p'' None 1 (Some (Component 3)) (Some ex_siblings) = ''p.cFancy_0'' \<and>
   createChildPath ex_env ''p'' None 4 (Some (Component 9)) (Some ex_siblings) = ''p.cComponent_0'' \<and>
   createChildPath ex_env ''p'' (Some ''a'') 2 (Some (Component 1)) (Some ex_siblings) = ''p.ka'' \<and>
   createChildPath ex_env ''p'' None 1 (Some (HostTag ''div'')) None = ''p.i1''"
proof -
  have names: "componentName (components ex_env (Suc 0)) = ''Counter''"
    "componentName (components ex_env 3) = ''Fancy''"
    "componentName (components ex_env 9) = ''Component''"
    using createChildPath_cases [where g = "components ex_env 1", THEN conjunct2, THEN conjunct2,
            THEN conjunct2, THEN conjunct2, THEN conjunct1]
      createChildPath_cases [where g = "components ex_env 3", THEN conjunct2, THEN conjunct2,
            THEN conjunct2, THEN conjunct1]
      createChildPath_cases [where g = "components ex_env 9", THEN conjunct2, THEN conjunct2,
            THEN conjunct2, THEN conjunct2, THEN conjunct2, THEN conjunct1]
    by (simp_all add: ex_env_def ex_base_def Counter_def Fancy_def)
  have digits: "number_string ex_env 0 = ''0''" "number_string ex_env (Suc 0) = ''1''"
    using createChildPath_cases [where E = ex_env and n = 0, THEN conjunct2, THEN conjunct2,
            THEN conjunct2, THEN conjunct2, THEN conjunct2, THEN conjunct2, THEN conjunct2]
      createChildPath_cases [where E = ex_env and n = 1, THEN conjunct2, THEN conjunct2,
            THEN conjunct2, THEN conjunct2, THEN conjunct2, THEN conjunct2, THEN conjunct2]
    by (simp_all add: string_of_nat.simps digit_char_def)
  have 1: "createChildPath ex_env ''p'' None 3 (Some (Component 1)) (Some ex_siblings) = ''p.cCounter_1''"
    using createChildPath_cases [where E = ex_env and p = "''p''" and sibs = ex_siblings
            and i = 3 and f = 1, THEN conjunct2, THEN conjunct1, unfolded sameTypeCount_card]
    by (simp add: names digits ex_siblings_def numeral_3_eq_3)
  have 2: "createChildPath ex_env ''p'' None 1 (Some (Component 3)) (Some ex_siblings) = ''p.cFancy_0''"
    using createChildPath_cases [where E = ex_env and p = "''p''" and sibs = ex_siblings
            and i = 1 and f = 3, THEN conjunct2, THEN conjunct1, unfolded sameTypeCount_card]
    by (simp add: names digits ex_siblings_def)
  have 3: "createChildPath ex_env ''p'' None 4 (Some (Component 9)) (Some ex_siblings) = ''p.cComponent_0''"
    using createChildPath_cases [where E = ex_env and p = "''p''" and sibs = ex_siblings
            and i = 4 and f = 9, THEN conjunct2, THEN conjunct1, unfolded sameTypeCount_card]
    by (simp add: names digits ex_siblings_def fuel_4)
  have 4: "createChildPath ex_env ''p'' (Some ''a'') 2 (Some (Component 1)) (Some ex_siblings) = ''p.ka''"
    using createChildPath_cases [where E = ex_env and p = "''p''" and k = "''a''" and i = 2
            and t = "Some (Component 1)" and s = "Some ex_siblings", THEN conjunct1]
    by simp
  have 5: "createChildPath ex_env ''p'' None 1 (Some (HostTag ''div'')) None = ''p.i1''"
    using createChildPath_cases [where E = ex_env and p = "''p''" and i = 1
            and t = "Some (HostTag ''div'')" and s = None, THEN conjunct2, THEN conjunct2,
            THEN conjunct2, THEN conjunct2, THEN conjunct2, THEN conjunct2, THEN conjunct1]
    by (simp add: digits)
  from 1 2 3 4 5 show ?thesis by blast
qed

section \<open>Children reconciliation by index\<close>

lemma reconcileChildren_from_pairs:
  "reconcileChildren_from rec E parentDom parentPath oldChildren newChildren maxLength i acc c =
   reconcile_pairs rec parentDom
     (map (\<lambda>i. (old_child_at oldChildren i, new_child_at newChildren i,
                child_path E parentPath (old_child_at oldChildren i) (new_child_at newChildren i)
                  i newChildren))
        [i..<maxLength]) acc c"
proof (induction "maxLength - i" arbitrary: i acc c)
  case 0
  then show ?case by (simp add: reconcileChildren_from.simps)
next
  case (Suc k)
  then have lt: "i < maxLength" and k: "k = maxLength - Suc i" by simp_all
  from lt have upt: "[i..<maxLength] = i # [Suc i..<maxLength]" by (rule upt_conv_Cons)
  show ?case
    by (subst reconcileChildren_from.simps)
       (simp add: lt upt Let_def Suc.hyps(1) [OF k] split: sum.splits)
qed

lemma reconcileChildren_as_pairs:
  "reconcileChildren rec E parentDom parent newChildren c =
     reconcile_pairs rec parentDom
       (index_pairs E (inst_path parent) (inst_children parent) newChildren) [] c"
  by (simp add: reconcileChildren_def reconcileChildren_from_pairs index_pairs_def)

lemma index_pairs_nth:
  assumes "i < max (length oldChildren) (length newChildren)"
  shows "index_pairs E parentPath oldChildren newChildren ! i =
           (old_child_at oldChildren i, new_child_at newChildren i,
            child_path E parentPath (old_child_at oldChildren i) (new_child_at newChildren i)
              i newChildren)"
proof -
  from assms have "i < length [0..<max (length oldChildren) (length newChildren)]" by simp
  moreover from assms have "[0..<max (length oldChildren) (length newChildren)] ! i = i"
    by (metis add_0 nth_upt)
  ultimately show ?thesis
    unfolding index_pairs_def by (simp only: nth_map)
qed

lemma child_path_new:
  "i < length newChildren \<Longrightarrow>
   child_path E parentPath oldChild (new_child_at newChildren i) i newChildren =
     createChildPath E parentPath (node_key (newChildren ! i)) i
       (Some (node_type (newChildren ! i))) (Some newChildren)"
  by (simp add: child_path_def new_child_at_def)

lemma child_path_old:
  "length newChildren \<le> i \<Longrightarrow> inst_path old \<noteq> [] \<Longrightarrow>
   child_path E parentPath (Some old) (new_child_at newChildren i) i newChildren = inst_path old"
  by (simp add: child_path_def new_child_at_def)

lemma child_path_nonempty:
  "child_path E parentPath oldChild newChild i newChildren \<noteq> []"
  by (simp add: child_path_def createChildPath_def Let_def
           split: option.splits node_type.splits)

text \<open>
  Claim C2. \<open>reconcileChildren\<close> reconciles, in index order, the pairs
  \<open>(old child at i, new child at i)\<close> for every \<open>i\<close> below the larger of the two
  counts, a missing child on either side being null; nothing is matched by key. The path
  at \<open>i\<close> is \<open>createChildPath\<close> of the new child's key, the index, its type and the new
  siblings when there is a new child at \<open>i\<close>, and otherwise the path of the old child at
  \<open>i\<close> (paths assigned to children are never empty, by \<open>child_path_nonempty\<close>).
\<close>

theorem reconcileChildren_by_index:
  "reconcileChildren rec E parentDom parent newChildren c =
     reconcile_pairs rec parentDom
       (index_pairs E (inst_path parent) (inst_children parent) newChildren) [] c \<and>
   length (index_pairs E (inst_path parent) (inst_children parent) newChildren) =
     max (length (inst_children parent)) (length newChildren) \<and>
   (\<forall>i < max (length (inst_children parent)) (length newChildren).
      index_pairs E (inst_path parent) (inst_children parent) newChildren ! i =
        (old_child_at (inst_children parent) i, new_child_at newChildren i,
         child_path E (inst_path parent) (old_child_at (inst_children parent) i)
           (new_child_at newChildren i) i newChildren) \<and>
      (i < length newChildren \<longrightarrow>
         child_path E (inst_path parent) (old_child_at (inst_children parent) i)
           (new_child_at newChildren i) i newChildren =
         createChildPath E (inst_path parent) (node_key (newChildren ! i)) i
           (Some (node_type (newChildren ! i))) (Some newChildren)) \<and>
      (length newChildren \<le> i \<longrightarrow>
         (\<forall>old. old_child_at (inst_children parent) i = Some old \<and> inst_path old \<noteq> [] \<longrightarrow>
            child_path E (inst_path parent) (old_child_at (inst_children parent) i)
              (new_child_at newChildren i) i newChildren = inst_path old)))"
proof (intro conjI allI impI)
  show "reconcileChildren rec E parentDom parent newChildren c =
     reconcile_pairs rec parentDom
       (index_pairs E (inst_path parent) (inst_children parent) newChildren) [] c"
    by (rule reconcileChildren_as_pairs)
  show "length (index_pairs E (inst_path parent) (inst_children parent) newChildren) =
     max (length (inst_children parent)) (length newChildren)"
    by (simp add: index_pairs_def)
next
  fix i assume "i < max (length (inst_children parent)) (length newChildren)"
  then show "index_pairs E (inst_path parent) (inst_children parent) newChildren ! i =
        (old_child_at (inst_children parent) i, new_child_at newChildren i,
         child_path E (inst_path parent) (old_child_at (inst_children parent) i)
           (new_child_at newChildren i) i newChildren)"
    by (rule index_pairs_nth)
next
  fix i assume "i < length newChildren"
  then show "child_path E (inst_path parent) (old_child_at (inst_children parent) i)
           (new_child_at newChildren i) i newChildren =
         createChildPath E (inst_path parent) (node_key (newChildren ! i)) i
           (Some (node_type (newChildren ! i))) (Some newChildren)"
    by (rule child_path_new)
next
  fix i old
  assume "length newChildren \<le> i"
    and "old_child_at (inst_children parent) i = Some old \<and> inst_path old \<noteq> []"
  then show "child_path E (inst_path parent) (old_child_at (inst_children parent) i)
              (new_child_at newChildren i) i newChildren = inst_path old"
    by (simp add: child_path_old)
qed

text \<open>Two old children against one new child: index \<open>0\<close> is updated at the path of
  the new child, index \<open>1\<close> is unmounted at the old child's path.\<close>

theorem reconcileChildren_by_index_witness:
  "index_pairs ex_env (inst_path ex_parent) (inst_children ex_parent) [ex_text ''bye''] =
     [(Some ex_old, Some (ex_text ''bye''), ''.k7.i0''), (Some ex_old, None, ''.i1'')] \<and>
   reconcileChildren (reconcile ex_env 1) ex_env 1 ex_parent [ex_text ''bye''] ex_context =
     Inr ([Some (Instance TEXT (Some 4) (ex_text ''bye'') [] None ''.k7.i0''), None],
          emit (SetNodeValue 4 (VStr ''bye'')) ex_context)"
proof -
  have pairs: "index_pairs ex_env (inst_path ex_parent) (inst_children ex_parent) [ex_text ''bye''] =
     [(Some ex_old, Some (ex_text ''bye''), ''.k7.i0''), (Some ex_old, None, ''.i1'')]"
    by (simp add: index_pairs_def ex_parent_def upt_rec old_child_at_def new_child_at_def
          child_path_def createChildPath_def ex_text_def ex_old_def number_string_def
          string_of_nat.simps digit_char_def)
  have "reconcileChildren (reconcile ex_env 1) ex_env 1 ex_parent [ex_text ''bye''] ex_context =
     reconcile_pairs (reconcile ex_env 1) 1
       (index_pairs ex_env (inst_path ex_parent) (inst_children ex_parent) [ex_text ''bye''])
       [] ex_context"
    by (rule reconcileChildren_by_index [THEN conjunct1])
  also have "\<dots> = Inr ([Some (Instance TEXT (Some 4) (ex_text ''bye'') [] None ''.k7.i0''), None],
          emit (SetNodeValue 4 (VStr ''bye'')) ex_context)"
    unfolding pairs
    by (simp add: reconcile_step_def ex_old_def ex_text_def update_def Let_def text_value_def
          prop_value_def removeInstance_def getDomNodes_def perform_def emit_def ex_context_def
          ex_env_def ex_base_def)
  finally show ?thesis using pairs by simp
qed

section \<open>The reconciler's dispatch\<close>

text \<open>A platform call that throws makes the adapter throw: a prop that is a property of
  the widget and cannot be assigned stops \<open>setDomProps\<close>.\<close>

lemma setDomProp_rejected:
  assumes "key \<noteq> ''children''" and "key \<noteq> ''style''" and "key \<noteq> ''className''"
    and "\<not> startsWith_on key" and "key_in_dom E c el key"
    and "platform_rejects E (tag_of c el) (SetProperty el key v)"
  shows "setDomProps E el ((key, v) # props) c = Inl PlatformThrew"
  using assms by (simp add: setDomProp_def perform_def)

lemma getDomNodes_top_widget:
  "set (getDomNodes_of inst) = {w. top_widget inst w}"
  "set (getDomNodes_children children) = {w. top_widget_children children w}"
  by (induction inst and children rule: getDomNodes_of_getDomNodes_children.induct)
     (auto split: option.splits)

lemma remove_nodes_closed:
  "\<exists>ws. remove_nodes parentDom nodes c =
          c\<lparr>dom_parent := (\<lambda>w. if w \<in> set ws then None else dom_parent c w),
            dom_log := dom_log c @ map (RemoveChild parentDom) ws\<rparr> \<and>
        distinct ws \<and> set ws = {w \<in> set nodes. dom_parent c w = Some parentDom}"
proof (induction nodes arbitrary: c)
  case Nil
  show ?case by (intro exI [of _ "[]"]) simp
next
  case (Cons node nodes)
  show ?case
  proof (cases "dom_parent c node = Some parentDom")
    case True
    let ?c = "removeChild parentDom node c"
    from Cons [of ?c] obtain ws where
      run: "remove_nodes parentDom nodes ?c =
              ?c\<lparr>dom_parent := (\<lambda>w. if w \<in> set ws then None else dom_parent ?c w),
                 dom_log := dom_log ?c @ map (RemoveChild parentDom) ws\<rparr>"
      and d: "distinct ws"
      and s: "set ws = {w \<in> set nodes. dom_parent ?c w = Some parentDom}"
      by blast
    from s have notin: "node \<notin> set ws" by (simp add: removeChild_def emit_def)
    from s have s': "set (node # ws) = {w \<in> set (node # nodes). dom_parent c w = Some parentDom}"
      using True by (auto simp: removeChild_def emit_def split: if_splits)
    have "remove_nodes parentDom (node # nodes) c =
            c\<lparr>dom_parent := (\<lambda>w. if w \<in> set (node # ws) then None else dom_parent c w),
              dom_log := dom_log c @ map (RemoveChild parentDom) (node # ws)\<rparr>"
      using True by (simp add: run) (auto simp: removeChild_def emit_def fun_eq_iff)
    with d notin s' show ?thesis by (intro exI [of _ "node # ws"]) simp
  next
    case False
    from Cons [of c] obtain ws where
      "remove_nodes parentDom nodes c =
         c\<lparr>dom_parent := (\<lambda>w. if w \<in> set ws then None else dom_parent c w),
           dom_log := dom_log c @ map (RemoveChild parentDom) ws\<rparr>"
      and "distinct ws"
      and "set ws = {w \<in> set nodes. dom_parent c w = Some parentDom}"
      by blast
    with False show ?thesis by (intro exI [of _ ws]) auto
  qed
qed

lemma removeInstance_closed:
  "\<exists>ws. removeInstance parentDom i c =
          c\<lparr>dom_parent := (\<lambda>w. if w \<in> set ws then None else dom_parent c w),
            dom_log := dom_log c @ map (RemoveChild parentDom) ws\<rparr> \<and>
        distinct ws \<and>
        set ws = {w. (case i of Some inst \<Rightarrow> top_widget inst w | None \<Rightarrow> False) \<and>
                     dom_parent c w = Some parentDom}"
proof (cases i)
  case None
  then show ?thesis by (intro exI [of _ "[]"]) (simp add: removeInstance_def)
next
  case (Some inst)
  from remove_nodes_closed [of parentDom "getDomNodes_of inst" c] obtain ws where
    "remove_nodes parentDom (getDomNodes_of inst) c =
          c\<lparr>dom_parent := (\<lambda>w. if w \<in> set ws then None else dom_parent c w),
            dom_log := dom_log c @ map (RemoveChild parentDom) ws\<rparr>"
    and "distinct ws"
    and "set ws = {w \<in> set (getDomNodes_of inst). dom_parent c w = Some parentDom}"
    by blast
  then show ?thesis
    by (intro exI [of _ ws]) (simp add: Some removeInstance_def getDomNodes_def getDomNodes_top_widget)
qed

lemma mount_text:
  assumes "node_type v = TEXT_ELEMENT"
  shows "(mount rec E parentDom v path c = Inr (inst, c1)) =
         (\<not> platform_rejects E [] (CreateTextNode (dom_next c) (text_value E (node_props v))) \<and>
          inst = Instance TEXT (Some (dom_next c)) v [] (node_key v) path \<and>
          c1 = c\<lparr>dom_next := Suc (dom_next c),
                  dom_parent := (dom_parent c)(dom_next c \<mapsto> parentDom),
                  dom_log := dom_log c @
                    [CreateTextNode (dom_next c) (text_value E (node_props v)),
                     AppendChild parentDom (dom_next c)]\<rparr>)"
  using assms
  by (auto simp: mount_def createTextNode_def perform_def emit_def appendChild_def)

lemma mount_host:
  assumes "node_type v = HostTag tag"
  shows "(mount rec E parentDom v path c = Inr (inst, c1)) =
         (\<not> platform_rejects E tag (CreateElement (dom_next c) tag) \<and>
          (\<exists>c2 children c3.
             setDomProps E (dom_next c) (node_props v)
               (c\<lparr>dom_next := Suc (dom_next c), dom_tag := (dom_tag c)(dom_next c \<mapsto> tag),
                  dom_log := dom_log c @ [CreateElement (dom_next c) tag]\<rparr>) = Inr c2 \<and>
             reconcile_pairs rec (dom_next c) (index_pairs E path [] (node_children v)) [] c2 =
               Inr (children, c3) \<and>
             inst = Instance HOST (Some (dom_next c)) v children (node_key v) path \<and>
             c1 = c3\<lparr>dom_parent := (dom_parent c3)(dom_next c \<mapsto> parentDom),
                     dom_log := dom_log c3 @ [AppendChild parentDom (dom_next c)]\<rparr>))"
  using assms
  by (auto simp: mount_def createElement_def perform_def emit_def appendChild_def Let_def
        reconcileChildren_as_pairs split: sum.splits)

lemma mount_fragment:
  assumes "node_type v = Fragment"
  shows "(mount rec E parentDom v path c = Inr (inst, c1)) =
         (\<exists>children.
            reconcile_pairs rec parentDom (index_pairs E path [] (node_children v)) [] c =
              Inr (children, c1) \<and>
            inst = Instance FRAGMENT None v children (node_key v) path)"
  using assms
  by (auto simp: mount_def Let_def reconcileChildren_as_pairs split: sum.splits)

lemma render_child_visit:
  "(render_child rec E parentDom oldChild f v path c = Inr (children, c1)) =
   (\<exists>child h ci.
      comp_body (components E f) (node_props v) (node_children v)
        ((store_of c)\<lparr>hooks_componentStack := hooks_componentStack c @ [path],
                       hooks_cursor := (hooks_cursor c)(path \<mapsto> 0),
                       hooks_visited := insert path (hooks_visited c)\<rparr>) = Inr (child, h) \<and>
      rec parentDom oldChild child
        (createChildPath E path None 0 (map_option node_type child)
           (Some (case child of Some n \<Rightarrow> [n] | None \<Rightarrow> [])))
        ((with_store h c)\<lparr>hooks_componentStack := butlast (hooks_componentStack h)\<rparr>) =
        Inr (ci, c1) \<and>
      children = (case ci of Some x \<Rightarrow> [Some x] | None \<Rightarrow> []))"
proof -
  have visit: "store_of (enter_component path c) =
        (store_of c)\<lparr>hooks_componentStack := hooks_componentStack c @ [path],
                      hooks_cursor := (hooks_cursor c)(path \<mapsto> 0),
                      hooks_visited := insert path (hooks_visited c)\<rparr>"
    by (simp add: store_of_def enter_component_def)
  have leave: "\<And>h. leave_component (with_store h c) =
        (with_store h c)\<lparr>hooks_componentStack := butlast (hooks_componentStack h)\<rparr>"
    by (simp add: leave_component_def with_store_def)
  show ?thesis
    unfolding render_child_def visit leave Let_def
    by (auto split: sum.splits)
qed

lemma mount_component:
  assumes "node_type v = Component f"
  shows "(mount rec E parentDom v path c = Inr (inst, c1)) =
         (\<exists>children. render_child rec E parentDom None f v path c = Inr (children, c1) \<and>
                     inst = Instance COMPONENT None v children (node_key v) path)"
  using assms by (auto simp: mount_def split: sum.splits)

lemma update_fields:
  "update rec E parentDom old v path c = Inr (inst, c1) \<Longrightarrow>
   inst = Instance (inst_kind old) (inst_dom old) v (inst_children inst) (inst_key old) path"
  by (auto simp: update_def Let_def split: node_type.splits sum.splits if_splits)

lemma update_fragment:
  assumes "node_type v = Fragment"
  shows "(update rec E parentDom old v path c = Inr (inst, c1)) =
         (\<exists>children.
            reconcile_pairs rec parentDom
              (index_pairs E path (inst_children old) (node_children v)) [] c =
              Inr (children, c1) \<and>
            inst = Instance (inst_kind old) (inst_dom old) v children (inst_key old) path)"
  using assms
  by (auto simp: update_def Let_def reconcileChildren_as_pairs split: sum.splits)

lemma update_component:
  assumes "node_type v = Component f"
  shows "(update rec E parentDom old v path c = Inr (inst, c1)) =
         (\<exists>children.
            render_child rec E parentDom (old_child_at (inst_children old) 0) f v path c =
              Inr (children, c1) \<and>
            inst = Instance (inst_kind old) (inst_dom old) v children (inst_key old) path)"
proof -
  have "(case inst_children old of [] \<Rightarrow> None | child # _ \<Rightarrow> child) =
        old_child_at (inst_children old) 0"
    by (cases "inst_children old") (simp_all add: old_child_at_def)
  with assms show ?thesis
    by (auto simp: update_def Let_def split: sum.splits)
qed

lemma update_text:
  assumes "node_type v = TEXT_ELEMENT" and "inst_dom old = Some w"
  shows "(update rec E parentDom old v path c = Inr (inst, c1)) =
         (\<not> platform_rejects E (tag_of c w) (SetNodeValue w (text_value E (node_props v))) \<and>
          inst = Instance (inst_kind old) (Some w) v (inst_children old) (inst_key old) path \<and>
          c1 = c\<lparr>dom_log := dom_log c @ [SetNodeValue w (text_value E (node_props v))]\<rparr>)"
  using assms by (auto simp: update_def Let_def perform_def emit_def)

lemma update_host:
  assumes "node_type v = HostTag tag" and "inst_kind old = HOST" and "inst_dom old = Some el"
  shows "(update rec E parentDom old v path c = Inr (inst, c1)) =
         (\<exists>c2 children.
            updateDomProps E el (node_props (inst_node old)) (node_props v) c = Inr c2 \<and>
            reconcile_pairs rec el (index_pairs E path (inst_children old) (node_children v))
              [] c2 = Inr (children, c1) \<and>
            inst = Instance HOST (Some el) v children (inst_key old) path)"
  using assms
  by (auto simp: update_def Let_def reconcileChildren_as_pairs split: sum.splits)

lemma update_untouched:
  assumes "(node_type v = TEXT_ELEMENT \<and> inst_dom old = None) \<or>
           (node_type v = HostTag tag \<and> (inst_kind old \<noteq> HOST \<or> inst_dom old = None))"
  shows "update rec E parentDom old v path c =
           Inr (Instance (inst_kind old) (inst_dom old) v (inst_children old) (inst_key old) path, c)"
  using assms by (auto simp: update_def Let_def)

lemma instance_fields:
  "(inst = Instance k d v children key path) =
   (inst_kind inst = k \<and> inst_dom inst = d \<and> inst_node inst = v \<and>
    inst_children inst = children \<and> inst_key inst = key \<and> inst_path inst = path)"
  by (cases inst) auto

text \<open>
  Claim C1. With fuel for at least one step:

  \<^item> On a null node \<open>reconcile\<close> returns null and detaches the widgets under the old
    instance: the widgets \<open>ws\<close> removed from \<open>parentDom\<close>, each once, are exactly the
    widgets under the instance that are children of \<open>parentDom\<close>; they lose their parent
    and nothing else changes. With a null instance the context is left as it is.

  \<^item> On a null instance and a node it returns a new instance for the node, at the path,
    mounted by kind. A text node: a text widget is created with the node's text and
    appended to \<open>parentDom\<close>. A host node: a widget is created, the props are set on it,
    the node's children are reconciled into it against no old children, and the widget
    is appended to \<open>parentDom\<close>. A fragment: its children are reconciled into
    \<open>parentDom\<close> against no old children; it has no widget. A component: the path is
    pushed, its cursor reset and the path marked visited, the body is run, the path is
    popped, and the one child the body returned is reconciled against no old instance
    at the path derived from it; the instance has that child or none, and no widget.

  \<^item> On an instance whose node differs from the new node in type or key it does what
    unmounting the instance and then mounting the node at the same path do.

  \<^item> Otherwise it returns the old instance (same kind, widget and key) with the new
    node and path, updated by kind: a text instance with a widget has the node's text
    written to it; a host instance has the props of its old node updated to the new
    ones and the children reconciled into its widget against its old children; a
    fragment has the children reconciled against its old children; a component is run
    as on mount and its child reconciled against its old first child.

  In each case the result is returned exactly when the steps named return.
\<close>

theorem reconcile_dispatch:
  "(\<exists>ws. reconcile E (Suc fuel) parentDom i None path c =
           Inr (None, c\<lparr>dom_parent := (\<lambda>w. if w \<in> set ws then None else dom_parent c w),
                        dom_log := dom_log c @ map (RemoveChild parentDom) ws\<rparr>) \<and>
         distinct ws \<and>
         set ws = {w. (case i of Some inst \<Rightarrow> top_widget inst w | None \<Rightarrow> False) \<and>
                      dom_parent c w = Some parentDom}) \<and>
   reconcile E (Suc fuel) parentDom None None path c = Inr (None, c) \<and>
   ((reconcile E (Suc fuel) parentDom None (Some v) path c = Inr (r, c1)) =
      (\<exists>inst. r = Some inst \<and>
         (case node_type v of
            TEXT_ELEMENT \<Rightarrow>
              \<not> platform_rejects E [] (CreateTextNode (dom_next c) (text_value E (node_props v))) \<and>
              inst = Instance TEXT (Some (dom_next c)) v [] (node_key v) path \<and>
              c1 = c\<lparr>dom_next := Suc (dom_next c),
                      dom_parent := (dom_parent c)(dom_next c \<mapsto> parentDom),
                      dom_log := dom_log c @
                        [CreateTextNode (dom_next c) (text_value E (node_props v)),
                         AppendChild parentDom (dom_next c)]\<rparr>
          | HostTag tag \<Rightarrow>
              \<not> platform_rejects E tag (CreateElement (dom_next c) tag) \<and>
              (\<exists>c2 children c3.
                 setDomProps E (dom_next c) (node_props v)
                   (c\<lparr>dom_next := Suc (dom_next c), dom_tag := (dom_tag c)(dom_next c \<mapsto> tag),
                      dom_log := dom_log c @ [CreateElement (dom_next c) tag]\<rparr>) = Inr c2 \<and>
                 reconcile_pairs (reconcile E fuel) (dom_next c)
                   (index_pairs E path [] (node_children v)) [] c2 = Inr (children, c3) \<and>
                 inst = Instance HOST (Some (dom_next c)) v children (node_key v) path \<and>
                 c1 = c3\<lparr>dom_parent := (dom_parent c3)(dom_next c \<mapsto> parentDom),
                         dom_log := dom_log c3 @ [AppendChild parentDom (dom_next c)]\<rparr>)
          | Fragment \<Rightarrow>
              (\<exists>children.
                 reconcile_pairs (reconcile E fuel) parentDom
                   (index_pairs E path [] (node_children v)) [] c = Inr (children, c1) \<and>
                 inst = Instance FRAGMENT None v children (node_key v) path)
          | Component f \<Rightarrow>
              (\<exists>child h ci.
                 comp_body (components E f) (node_props v) (node_children v)
                   ((store_of c)\<lparr>hooks_componentStack := hooks_componentStack c @ [path],
                                 hooks_cursor := (hooks_cursor c)(path \<mapsto> 0),
                                 hooks_visited := insert path (hooks_visited c)\<rparr>) =
                   Inr (child, h) \<and>
                 reconcile E fuel parentDom None child
                   (createChildPath E path None 0 (map_option node_type child)
                      (Some (case child of Some n \<Rightarrow> [n] | None \<Rightarrow> [])))
                   ((with_store h c)\<lparr>hooks_componentStack := butlast (hooks_componentStack h)\<rparr>) =
                   Inr (ci, c1) \<and>
                 inst = Instance COMPONENT None v
                          (case ci of Some x \<Rightarrow> [Some x] | None \<Rightarrow> []) (node_key v) path)))) \<and>
   (node_type (inst_node old) \<noteq> node_type v \<or> node_key (inst_node old) \<noteq> node_key v \<longrightarrow>
      (\<exists>c0. reconcile E (Suc fuel) parentDom (Some old) None path c = Inr (None, c0) \<and>
            reconcile E (Suc fuel) parentDom (Some old) (Some v) path c =
              reconcile E (Suc fuel) parentDom None (Some v) path c0)) \<and>
   (node_type (inst_node old) = node_type v \<and> node_key (inst_node old) = node_key v \<longrightarrow>
      (reconcile E (Suc fuel) parentDom (Some old) (Some v) path c = Inr (r, c1)) =
        (\<exists>inst. r = Some inst \<and>
           inst_kind inst = inst_kind old \<and> inst_dom inst = inst_dom old \<and>
           inst_key inst = inst_key old \<and> inst_node inst = v \<and> inst_path inst = path \<and>
           (case node_type v of
              TEXT_ELEMENT \<Rightarrow>
                (case inst_dom old of
                   Some w \<Rightarrow>
                     \<not> platform_rejects E (tag_of c w) (SetNodeValue w (text_value E (node_props v))) \<and>
                     inst_children inst = inst_children old \<and>
                     c1 = c\<lparr>dom_log := dom_log c @
                              [SetNodeValue w (text_value E (node_props v))]\<rparr>
                 | None \<Rightarrow> inst_children inst = inst_children old \<and> c1 = c)
            | HostTag tag \<Rightarrow>
                (case inst_dom old of
                   Some el \<Rightarrow>
                     if inst_kind old = HOST then
                       (\<exists>c2. updateDomProps E el (node_props (inst_node old)) (node_props v) c =
                               Inr c2 \<and>
                             reconcile_pairs (reconcile E fuel) el
                               (index_pairs E path (inst_children old) (node_children v)) [] c2 =
                               Inr (inst_children inst, c1))
                     else inst_children inst = inst_children old \<and> c1 = c
                 | None \<Rightarrow> inst_children inst = inst_children old \<and> c1 = c)
            | Fragment \<Rightarrow>
                reconcile_pairs (reconcile E fuel) parentDom
                  (index_pairs E path (inst_children old) (node_children v)) [] c =
                  Inr (inst_children inst, c1)
            | Component f \<Rightarrow>
                (\<exists>child h ci.
                   comp_body (components E f) (node_props v) (node_children v)
                     ((store_of c)\<lparr>hooks_componentStack := hooks_componentStack c @ [path],
                                   hooks_cursor := (hooks_cursor c)(path \<mapsto> 0),
                                   hooks_visited := insert path (hooks_visited c)\<rparr>) =
                     Inr (child, h) \<and>
                   reconcile E fuel parentDom (old_child_at (inst_children old) 0) child
                     (createChildPath E path None 0 (map_option node_type child)
                        (Some (case child of Some n \<Rightarrow> [n] | None \<Rightarrow> [])))
                     ((with_store h c)\<lparr>hooks_componentStack := butlast (hooks_componentStack h)\<rparr>) =
                     Inr (ci, c1) \<and>
                   inst_children inst = (case ci of Some x \<Rightarrow> [Some x] | None \<Rightarrow> [])))))"
proof (intro conjI impI)
  from removeInstance_closed [of parentDom i c]
  show "\<exists>ws. reconcile E (Suc fuel) parentDom i None path c =
           Inr (None, c\<lparr>dom_parent := (\<lambda>w. if w \<in> set ws then None else dom_parent c w),
                        dom_log := dom_log c @ map (RemoveChild parentDom) ws\<rparr>) \<and>
         distinct ws \<and>
         set ws = {w. (case i of Some inst \<Rightarrow> top_widget inst w | None \<Rightarrow> False) \<and>
                      dom_parent c w = Some parentDom}"
    by (simp add: reconcile_step_def)
next
  show "reconcile E (Suc fuel) parentDom None None path c = Inr (None, c)"
    by (simp add: reconcile_step_def removeInstance_def)
next
  have mstep: "(reconcile E (Suc fuel) parentDom None (Some v) path c = Inr (r, c1)) =
        (\<exists>inst. r = Some inst \<and> mount (reconcile E fuel) E parentDom v path c = Inr (inst, c1))"
    by (auto simp: reconcile_step_def split: sum.splits)
  show "(reconcile E (Suc fuel) parentDom None (Some v) path c = Inr (r, c1)) =
      (\<exists>inst. r = Some inst \<and>
         (case node_type v of
            TEXT_ELEMENT \<Rightarrow>
              \<not> platform_rejects E [] (CreateTextNode (dom_next c) (text_value E (node_props v))) \<and>
              inst = Instance TEXT (Some (dom_next c)) v [] (node_key v) path \<and>
              c1 = c\<lparr>dom_next := Suc (dom_next c),
                      dom_parent := (dom_parent c)(dom_next c \<mapsto> parentDom),
                      dom_log := dom_log c @
                        [CreateTextNode (dom_next c) (text_value E (node_props v)),
                         AppendChild parentDom (dom_next c)]\<rparr>
          | HostTag tag \<Rightarrow>
              \<not> platform_rejects E tag (CreateElement (dom_next c) tag) \<and>
              (\<exists>c2 children c3.
                 setDomProps E (dom_next c) (node_props v)
                   (c\<lparr>dom_next := Suc (dom_next c), dom_tag := (dom_tag c)(dom_next c \<mapsto> tag),
                      dom_log := dom_log c @ [CreateElement (dom_next c) tag]\<rparr>) = Inr c2 \<and>
                 reconcile_pairs (reconcile E fuel) (dom_next c)
                   (index_pairs E path [] (node_children v)) [] c2 = Inr (children, c3) \<and>
                 inst = Instance HOST (Some (dom_next c)) v children (node_key v) path \<and>
                 c1 = c3\<lparr>dom_parent := (dom_parent c3)(dom_next c \<mapsto> parentDom),
                         dom_log := dom_log c3 @ [AppendChild parentDom (dom_next c)]\<rparr>)
          | Fragment \<Rightarrow>
              (\<exists>children.
                 reconcile_pairs (reconcile E fuel) parentDom
                   (index_pairs E path [] (node_children v)) [] c = Inr (children, c1) \<and>
                 inst = Instance FRAGMENT None v children (node_key v) path)
          | Component f \<Rightarrow>
              (\<exists>child h ci.
                 comp_body (components E f) (node_props v) (node_children v)
                   ((store_of c)\<lparr>hooks_componentStack := hooks_componentStack c @ [path],
                                 hooks_cursor := (hooks_cursor c)(path \<mapsto> 0),
                                 hooks_visited := insert path (hooks_visited c)\<rparr>) =
                   Inr (child, h) \<and>
                 reconcile E fuel parentDom None child
                   (createChildPath E path None 0 (map_option node_type child)
                      (Some (case child of Some n \<Rightarrow> [n] | None \<Rightarrow> [])))
                   ((with_store h c)\<lparr>hooks_componentStack := butlast (hooks_componentStack h)\<rparr>) =
                   Inr (ci, c1) \<and>
                 inst = Instance COMPONENT None v
                          (case ci of Some x \<Rightarrow> [Some x] | None \<Rightarrow> []) (node_key v) path)))"
  proof (cases "node_type v")
    case (HostTag tag)
    show ?thesis
      by (simp add: mstep HostTag mount_host [OF HostTag] del: reconcile.simps)
  next
    case TEXT_ELEMENT
    show ?thesis
      by (simp add: mstep TEXT_ELEMENT mount_text [OF TEXT_ELEMENT] del: reconcile.simps)
  next
    case Fragment
    show ?thesis
      by (simp add: mstep Fragment mount_fragment [OF Fragment] del: reconcile.simps)
  next
    case (Component f)
    show ?thesis
      by (simp add: mstep Component mount_component [OF Component] render_child_visit
            del: reconcile.simps) blast
  qed
next
  assume "node_type (inst_node old) \<noteq> node_type v \<or> node_key (inst_node old) \<noteq> node_key v"
  then show "\<exists>c0. reconcile E (Suc fuel) parentDom (Some old) None path c = Inr (None, c0) \<and>
            reconcile E (Suc fuel) parentDom (Some old) (Some v) path c =
              reconcile E (Suc fuel) parentDom None (Some v) path c0"
    by (auto simp: reconcile_step_def)
next
  assume same: "node_type (inst_node old) = node_type v \<and> node_key (inst_node old) = node_key v"
  then have step: "(reconcile E (Suc fuel) parentDom (Some old) (Some v) path c = Inr (r, c1)) =
        (\<exists>inst. r = Some inst \<and> update (reconcile E fuel) E parentDom old v path c = Inr (inst, c1))"
    by (auto simp: reconcile_step_def split: sum.splits)
  show "(reconcile E (Suc fuel) parentDom (Some old) (Some v) path c = Inr (r, c1)) =
        (\<exists>inst. r = Some inst \<and>
           inst_kind inst = inst_kind old \<and> inst_dom inst = inst_dom old \<and>
           inst_key inst = inst_key old \<and> inst_node inst = v \<and> inst_path inst = path \<and>
           (case node_type v of
              TEXT_ELEMENT \<Rightarrow>
                (case inst_dom old of
                   Some w \<Rightarrow>
                     \<not> platform_rejects E (tag_of c w) (SetNodeValue w (text_value E (node_props v))) \<and>
                     inst_children inst = inst_children old \<and>
                     c1 = c\<lparr>dom_log := dom_log c @
                              [SetNodeValue w (text_value E (node_props v))]\<rparr>
                 | None \<Rightarrow> inst_children inst = inst_children old \<and> c1 = c)
            | HostTag tag \<Rightarrow>
                (case inst_dom old of
                   Some el \<Rightarrow>
                     if inst_kind old = HOST then
                       (\<exists>c2. updateDomProps E el (node_props (inst_node old)) (node_props v) c =
                               Inr c2 \<and>
                             reconcile_pairs (reconcile E fuel) el
                               (index_pairs E path (inst_children old) (node_children v)) [] c2 =
                               Inr (inst_children inst, c1))
                     else inst_children inst = inst_children old \<and> c1 = c
                 | None \<Rightarrow> inst_children inst = inst_children old \<and> c1 = c)
            | Fragment \<Rightarrow>
                reconcile_pairs (reconcile E fuel) parentDom
                  (index_pairs E path (inst_children old) (node_children v)) [] c =
                  Inr (inst_children inst, c1)
            | Component f \<Rightarrow>
                (\<exists>child h ci.
                   comp_body (components E f) (node_props v) (node_children v)
                     ((store_of c)\<lparr>hooks_componentStack := hooks_componentStack c @ [path],
                                   hooks_cursor := (hooks_cursor c)(path \<mapsto> 0),
                                   hooks_visited := insert path (hooks_visited c)\<rparr>) =
                     Inr (child, h) \<and>
                   reconcile E fuel parentDom (old_child_at (inst_children old) 0) child
                     (createChildPath E path None 0 (map_option node_type child)
                        (Some (case child of Some n \<Rightarrow> [n] | None \<Rightarrow> [])))
                     ((with_store h c)\<lparr>hooks_componentStack := butlast (hooks_componentStack h)\<rparr>) =
                     Inr (ci, c1) \<and>
                   inst_children inst = (case ci of Some x \<Rightarrow> [Some x] | None \<Rightarrow> []))))"
  proof (cases "node_type v")
    case TEXT_ELEMENT
    show ?thesis
    proof (cases "inst_dom old")
      case None
      with TEXT_ELEMENT have
        "update (reconcile E fuel) E parentDom old v path c =
           Inr (Instance (inst_kind old) (inst_dom old) v (inst_children old) (inst_key old) path, c)"
        by (intro update_untouched) simp
      then show ?thesis by (auto simp: step TEXT_ELEMENT None instance_fields simp del: reconcile.simps)
    next
      case (Some w)
      show ?thesis
        by (auto simp: step TEXT_ELEMENT Some update_text [OF TEXT_ELEMENT Some] instance_fields
              simp del: reconcile.simps)
    qed
  next
    case (HostTag tag)
    show ?thesis
    proof (cases "inst_kind old = HOST \<and> inst_dom old \<noteq> None")
      case True
      then obtain el where el: "inst_dom old = Some el" and k: "inst_kind old = HOST" by auto
      show ?thesis
        by (auto simp: step update_host [OF HostTag k el] HostTag el k instance_fields
              simp del: reconcile.simps)
    next
      case False
      with HostTag have
        "update (reconcile E fuel) E parentDom old v path c =
           Inr (Instance (inst_kind old) (inst_dom old) v (inst_children old) (inst_key old) path, c)"
        by (intro update_untouched) auto
      with False show ?thesis
        by (auto simp: step HostTag instance_fields simp del: reconcile.simps split: option.splits)
    qed
  next
    case Fragment
    show ?thesis
      by (auto simp: step update_fragment [OF Fragment] Fragment instance_fields
            simp del: reconcile.simps)
  next
    case (Component f)
    show ?thesis
      by (simp add: step update_component [OF Component] render_child_visit Component instance_fields
            del: reconcile.simps) blast
  qed
qed

text \<open>The sample application mounts within four levels of nesting.\<close>

lemma ex_app_mounted:
  "\<exists>c1. reconcile ex_env (Suc 3) 0 None (Some ex_app) [] ex_context =
          Inr (Some ex_app_instance, c1)"
  unfolding numeral_3_eq_3
  by (simp add: reconcile_step_def mount_def render_child_def ex_env_def ex_base_def
        Counter_def enter_component_def leave_component_def useState_def useEffect_def
        currentPath_def cursor_at_def hooks_at_def array_get_def array_set_def write_slot_def
        ex_context_def ex_app_def ex_app_instance_def Let_def createChildPath_def componentName_def
        number_string_digit createElement_def createTextNode_def emit_def perform_def tag_of_def
        appendChild_def setDomProp_def key_in_dom_def startsWith_on_def eventType_def lower_char_def
        reconcileChildren_def reconcileChildren_from.simps old_child_at_def new_child_at_def
        child_path_def ex_text_def text_value_def prop_value_def is_nullish_def shallowEquals_def
        Object_is_def cleanup_of_def store_of_def with_store_def get_prop_def)

lemma ex_group_widgets:
  "{w. top_widget ex_group w \<and> dom_parent ex_group_context w = Some 0} = {2, 4}"
  by (auto simp: ex_group_def ex_app_instance_def ex_group_context_def split: if_splits)

text \<open>
  Unmounting the sample group from the container removes the button and the text, the
  two widgets under it; the button's own text stays with the button. Mounting the sample
  application creates the \<open>div\<close>, sets its props, reconciles its children into it and
  appends it to the container. The text instance \<open>hello\<close> reconciled against a fragment
  is removed and the fragment mounted; against the text node \<open>bye\<close> it is updated in
  place.
\<close>

theorem reconcile_dispatch_witness:
  "(\<exists>ws. reconcile ex_env (Suc 0) 0 (Some ex_group) None [] ex_group_context =
           Inr (None,
                ex_group_context
                  \<lparr>dom_parent := (\<lambda>w. if w \<in> set ws then None else dom_parent ex_group_context w),
                   dom_log := dom_log ex_group_context @ map (RemoveChild 0) ws\<rparr>) \<and>
         distinct ws \<and> set ws = {2, 4}) \<and>
   (\<exists>c1 c2 children c3.
      reconcile ex_env (Suc 3) 0 None (Some ex_app) [] ex_context =
        Inr (Some ex_app_instance, c1) \<and>
      setDomProps ex_env 1 [(''id'', VStr ''app'')]
        (ex_context\<lparr>dom_next := 2, dom_tag := [0 \<mapsto> ''div'', 1 \<mapsto> ''div''],
                     dom_log := [CreateElement 1 ''div'']\<rparr>) = Inr c2 \<and>
      reconcile_pairs (reconcile ex_env 3) 1
        (index_pairs ex_env [] [] [VNode (Component 1) None [] [], ex_text ''hello'']) [] c2 =
        Inr (children, c3) \<and>
      ex_app_instance = Instance HOST (Some 1) ex_app children None [] \<and>
      c1 = c3\<lparr>dom_parent := (dom_parent c3)(1 \<mapsto> 0), dom_log := dom_log c3 @ [AppendChild 0 1]\<rparr>) \<and>
   node_type (inst_node ex_old) \<noteq> node_type (VNode Fragment None [] []) \<and>
   reconcile ex_env (Suc 0) 1 (Some ex_old) (Some (VNode Fragment None [] [])) ''.i1''
       (ex_context\<lparr>dom_parent := [4 \<mapsto> 1]\<rparr>) =
     Inr (Some (Instance FRAGMENT None (VNode Fragment None [] []) [] None ''.i1''),
          ex_context\<lparr>dom_parent := Map.empty, dom_log := [RemoveChild 1 4]\<rparr>) \<and>
   node_type (inst_node ex_old) = node_type (ex_text ''bye'') \<and>
   node_key (inst_node ex_old) = node_key (ex_text ''bye'') \<and>
   reconcile ex_env (Suc 0) 1 (Some ex_old) (Some (ex_text ''bye'')) ''.i1'' ex_context =
     Inr (Some (Instance TEXT (Some 4) (ex_text ''bye'') [] None ''.i1''),
          ex_context\<lparr>dom_log := [SetNodeValue 4 (VStr ''bye'')]\<rparr>)"
proof (intro conjI)
  show "\<exists>ws. reconcile ex_env (Suc 0) 0 (Some ex_group) None [] ex_group_context =
           Inr (None,
                ex_group_context
                  \<lparr>dom_parent := (\<lambda>w. if w \<in> set ws then None else dom_parent ex_group_context w),
                   dom_log := dom_log ex_group_context @ map (RemoveChild 0) ws\<rparr>) \<and>
         distinct ws \<and> set ws = {2, 4}"
    by (rule reconcile_dispatch [where E = ex_env and fuel = 0 and parentDom = 0
               and i = "Some ex_group" and path = "[]" and c = ex_group_context,
               THEN conjunct1, unfolded option.case ex_group_widgets])
next
  obtain c1 where
    m: "reconcile ex_env (Suc 3) 0 None (Some ex_app) [] ex_context = Inr (Some ex_app_instance, c1)"
    using ex_app_mounted by blast
  from reconcile_dispatch [where E = ex_env and fuel = 3 and parentDom = 0 and v = ex_app
         and path = "[]" and c = ex_context and r = "Some ex_app_instance" and ?c1.0 = c1,
         THEN conjunct2, THEN conjunct2, THEN conjunct1, THEN iffD1, OF m]
  have "\<exists>c2 children c3.
      setDomProps ex_env 1 [(''id'', VStr ''app'')]
        (ex_context\<lparr>dom_next := 2, dom_tag := [0 \<mapsto> ''div'', 1 \<mapsto> ''div''],
                     dom_log := [CreateElement 1 ''div'']\<rparr>) = Inr c2 \<and>
      reconcile_pairs (reconcile ex_env 3) 1
        (index_pairs ex_env [] [] [VNode (Component 1) None [] [], ex_text ''hello'']) [] c2 =
        Inr (children, c3) \<and>
      ex_app_instance = Instance HOST (Some 1) ex_app children None [] \<and>
      c1 = c3\<lparr>dom_parent := (dom_parent c3)(1 \<mapsto> 0), dom_log := dom_log c3 @ [AppendChild 0 1]\<rparr>"
    by (simp add: ex_app_def ex_context_def numeral_2_eq_2 del: reconcile.simps)
  with m show "\<exists>c1 c2 children c3.
      reconcile ex_env (Suc 3) 0 None (Some ex_app) [] ex_context =
        Inr (Some ex_app_instance, c1) \<and>
      setDomProps ex_env 1 [(''id'', VStr ''app'')]
        (ex_context\<lparr>dom_next := 2, dom_tag := [0 \<mapsto> ''div'', 1 \<mapsto> ''div''],
                     dom_log := [CreateElement 1 ''div'']\<rparr>) = Inr c2 \<and>
      reconcile_pairs (reconcile ex_env 3) 1
        (index_pairs ex_env [] [] [VNode (Component 1) None [] [], ex_text ''hello'']) [] c2 =
        Inr (children, c3) \<and>
      ex_app_instance = Instance HOST (Some 1) ex_app children None [] \<and>
      c1 = c3\<lparr>dom_parent := (dom_parent c3)(1 \<mapsto> 0), dom_log := dom_log c3 @ [AppendChild 0 1]\<rparr>"
    by blast
next
  show differ: "node_type (inst_node ex_old) \<noteq> node_type (VNode Fragment None [] [])"
    by (simp add: ex_old_def ex_text_def)
  let ?before = "ex_context\<lparr>dom_parent := [4 \<mapsto> 1]\<rparr>"
  let ?after = "ex_context\<lparr>dom_parent := Map.empty, dom_log := [RemoveChild 1 4]\<rparr>"
  from differ reconcile_dispatch [where E = ex_env and fuel = 0 and parentDom = 1 and old = ex_old
         and v = "VNode Fragment None [] []" and path = "''.i1''" and c = ?before,
         THEN conjunct2, THEN conjunct2, THEN conjunct2, THEN conjunct1]
  obtain c0 where
    un: "reconcile ex_env (Suc 0) 1 (Some ex_old) None ''.i1'' ?before = Inr (None, c0)"
    and re: "reconcile ex_env (Suc 0) 1 (Some ex_old) (Some (VNode Fragment None [] [])) ''.i1'' ?before =
             reconcile ex_env (Suc 0) 1 None (Some (VNode Fragment None [] [])) ''.i1'' c0"
    by blast
  have "reconcile ex_env (Suc 0) 1 (Some ex_old) None ''.i1'' ?before = Inr (None, ?after)"
    by (simp add: reconcile_step_def removeInstance_def getDomNodes_def ex_old_def removeChild_def
          emit_def ex_context_def)
  with un have c0: "c0 = ?after" by simp
  show "reconcile ex_env (Suc 0) 1 (Some ex_old) (Some (VNode Fragment None [] [])) ''.i1'' ?before =
     Inr (Some (Instance FRAGMENT None (VNode Fragment None [] []) [] None ''.i1''), ?after)"
    unfolding re c0
    by (simp add: reconcile_step_def mount_def reconcileChildren_def reconcileChildren_from.simps)
next
  show same: "node_type (inst_node ex_old) = node_type (ex_text ''bye'')"
    by (simp add: ex_old_def ex_text_def)
  show key: "node_key (inst_node ex_old) = node_key (ex_text ''bye'')"
    by (simp add: ex_old_def ex_text_def)
  from same key have both:
    "node_type (inst_node ex_old) = node_type (ex_text ''bye'') \<and>
     node_key (inst_node ex_old) = node_key (ex_text ''bye'')" by simp
  show "reconcile ex_env (Suc 0) 1 (Some ex_old) (Some (ex_text ''bye'')) ''.i1'' ex_context =
     Inr (Some (Instance TEXT (Some 4) (ex_text ''bye'') [] None ''.i1''),
          ex_context\<lparr>dom_log := [SetNodeValue 4 (VStr ''bye'')]\<rparr>)"
    by (rule reconcile_dispatch [where E = ex_env and fuel = 0 and parentDom = 1 and old = ex_old
               and v = "ex_text ''bye''" and path = "''.i1''" and c = ex_context,
               THEN conjunct2, THEN conjunct2, THEN conjunct2, THEN conjunct2, THEN mp, OF both,
               THEN iffD2])
       (simp add: ex_old_def ex_text_def text_value_def prop_value_def ex_env_def ex_base_def
          ex_context_def)
qed

section \<open>Fuel\<close>

text \<open>A reconciliation that returns within some nesting depth returns the same with any
  larger bound: the bound only decides whether a result is reached, never which.\<close>

lemma extendsD:
  "extends rec rec' \<Longrightarrow> rec parentDom i node path c = Inr r \<Longrightarrow> rec' parentDom i node path c = Inr r"
  unfolding extends_def by blast

lemma reconcile_pairs_extends:
  assumes "extends rec rec'"
  shows "reconcile_pairs rec parentDom pairs acc c = Inr r \<Longrightarrow>
         reconcile_pairs rec' parentDom pairs acc c = Inr r"
proof (induction pairs arbitrary: acc c)
  case Nil
  then show ?case by simp
next
  case (Cons t pairs)
  obtain oldChild newChild childPath where t: "t = (oldChild, newChild, childPath)"
    by (cases t)
  from Cons.prems obtain inst c' where
    step: "rec parentDom oldChild newChild childPath c = Inr (inst, c')"
    and rest: "reconcile_pairs rec parentDom pairs (acc @ [inst]) c' = Inr r"
    by (auto simp: t split: sum.splits)
  from extendsD [OF assms step] Cons.IH [OF rest] show ?case
    by (simp add: t)
qed

lemma reconcileChildren_extends:
  "extends rec rec' \<Longrightarrow> reconcileChildren rec E parentDom parent children c = Inr r \<Longrightarrow>
   reconcileChildren rec' E parentDom parent children c = Inr r"
  by (simp add: reconcileChildren_as_pairs reconcile_pairs_extends)

lemma render_child_extends:
  assumes "extends rec rec'" and "render_child rec E parentDom oldChild f node path c = Inr r"
  shows "render_child rec' E parentDom oldChild f node path c = Inr r"
proof -
  from assms(2) obtain childNode h childInstance c3 where
    body: "comp_body (components E f) (node_props node) (node_children node)
             (store_of (enter_component path c)) = Inr (childNode, h)"
    and child: "rec parentDom oldChild childNode
                  (createChildPath E path None 0 (map_option node_type childNode)
                     (Some (case childNode of Some n \<Rightarrow> [n] | None \<Rightarrow> [])))
                  (leave_component (with_store h c)) = Inr (childInstance, c3)"
    and r: "r = (case childInstance of Some ci \<Rightarrow> [Some ci] | None \<Rightarrow> [], c3)"
    by (auto simp: render_child_def Let_def split: sum.splits prod.splits)
  from extendsD [OF assms(1) child] body r show ?thesis
    by (simp add: render_child_def Let_def)
qed

lemma mount_extends:
  assumes "extends rec rec'" and "mount rec E parentDom node path c = Inr r"
  shows "mount rec' E parentDom node path c = Inr r"
proof (cases "node_type node")
  case (HostTag tag)
  with assms(2) obtain el c1 c2 children c3 where
    "createElement E tag c = Inr (el, c1)" "setDomProps E el (node_props node) c1 = Inr c2"
    "reconcileChildren rec E el (Instance HOST (Some el) node [] (node_key node) path)
       (node_children node) c2 = Inr (children, c3)"
    "r = (Instance HOST (Some el) node children (node_key node) path, appendChild parentDom el c3)"
    by (auto simp: mount_def Let_def split: sum.splits prod.splits)
  with reconcileChildren_extends [OF assms(1)] HostTag show ?thesis
    by (simp add: mount_def Let_def)
next
  case TEXT_ELEMENT
  with assms(2) show ?thesis by (simp add: mount_def)
next
  case Fragment
  with assms(2) obtain children c1 where
    "reconcileChildren rec E parentDom (Instance FRAGMENT None node [] (node_key node) path)
       (node_children node) c = Inr (children, c1)"
    "r = (Instance FRAGMENT None node children (node_key node) path, c1)"
    by (auto simp: mount_def Let_def split: sum.splits)
  with reconcileChildren_extends [OF assms(1)] Fragment show ?thesis
    by (simp add: mount_def Let_def)
next
  case (Component f)
  with assms(2) obtain children c1 where
    "render_child rec E parentDom None f node path c = Inr (children, c1)"
    "r = (Instance COMPONENT None node children (node_key node) path, c1)"
    by (auto simp: mount_def split: sum.splits)
  with render_child_extends [OF assms(1)] Component show ?thesis
    by (simp add: mount_def)
qed

lemma update_extends:
  assumes "extends rec rec'" and "update rec E parentDom inst node path c = Inr r"
  shows "update rec' E parentDom inst node path c = Inr r"
proof (cases "node_type node")
  case (HostTag tag)
  show ?thesis
  proof (cases "inst_kind inst = HOST \<and> inst_dom inst \<noteq> None")
    case True
    with assms(2) HostTag obtain c1 children c2 where
      "updateDomProps E (the (inst_dom inst)) (node_props (inst_node inst)) (node_props node) c = Inr c1"
      "reconcileChildren rec E (the (inst_dom inst))
         (Instance (inst_kind inst) (inst_dom inst) node (inst_children inst) (inst_key inst) path)
         (node_children node) c1 = Inr (children, c2)"
      "r = (Instance (inst_kind inst) (inst_dom inst) node children (inst_key inst) path, c2)"
      by (auto simp: update_def Let_def split: sum.splits)
    with reconcileChildren_extends [OF assms(1)] HostTag True show ?thesis
      by (simp add: update_def Let_def)
  next
    case False
    with assms(2) HostTag show ?thesis by (auto simp: update_def Let_def)
  qed
next
  case TEXT_ELEMENT
  show ?thesis
  proof (cases "inst_dom inst \<noteq> None")
    case True
    with assms(2) TEXT_ELEMENT show ?thesis by (simp add: update_def Let_def)
  next
    case False
    with assms(2) TEXT_ELEMENT show ?thesis by (simp add: update_def Let_def)
  qed
next
  case Fragment
  with assms(2) obtain children c1 where
    "reconcileChildren rec E parentDom
       (Instance (inst_kind inst) (inst_dom inst) node (inst_children inst) (inst_key inst) path)
       (node_children node) c = Inr (children, c1)"
    "r = (Instance (inst_kind inst) (inst_dom inst) node children (inst_key inst) path, c1)"
    by (auto simp: update_def Let_def split: sum.splits)
  with reconcileChildren_extends [OF assms(1)] Fragment show ?thesis
    by (simp add: update_def Let_def)
next
  case (Component f)
  with assms(2) obtain children c1 where
    "render_child rec E parentDom (case inst_children inst of [] \<Rightarrow> None | child # _ \<Rightarrow> child)
       f node path c = Inr (children, c1)"
    "r = (Instance (inst_kind inst) (inst_dom inst) node children (inst_key inst) path, c1)"
    by (auto simp: update_def Let_def split: sum.splits)
  with render_child_extends [OF assms(1)] Component show ?thesis
    by (simp add: update_def Let_def)
qed

lemma reconcile_step_extends:
  assumes "extends rec rec'"
  shows "extends (reconcile_step rec E) (reconcile_step rec' E)"
  unfolding extends_def
proof (intro allI impI)
  fix parentDom i node path c r
  assume a: "reconcile_step rec E parentDom i node path c = Inr r"
  show "reconcile_step rec' E parentDom i node path c = Inr r"
  proof (cases node)
    case None
    with a show ?thesis by (simp add: reconcile_step_def)
  next
    case (Some n)
    show ?thesis
    proof (cases i)
      case None
      with a Some obtain inst c1 where
        "mount rec E parentDom n path c = Inr (inst, c1)" "r = (Some inst, c1)"
        by (auto simp: reconcile_step_def split: sum.splits)
      with mount_extends [OF assms] None Some show ?thesis
        by (simp add: reconcile_step_def)
    next
      case (Some old)
      show ?thesis
      proof (cases "node_type (inst_node old) \<noteq> node_type n \<or> node_key (inst_node old) \<noteq> node_key n")
        case True
        with a \<open>node = Some n\<close> Some obtain inst c1 where
          "mount rec E parentDom n path (removeInstance parentDom (Some old) c) = Inr (inst, c1)"
          "r = (Some inst, c1)"
          by (auto simp: reconcile_step_def split: sum.splits)
        with mount_extends [OF assms] True \<open>node = Some n\<close> Some show ?thesis
          by (auto simp add: reconcile_step_def)
      next
        case False
        with a \<open>node = Some n\<close> Some obtain inst c1 where
          "update rec E parentDom old n path c = Inr (inst, c1)" "r = (Some inst, c1)"
          by (auto simp: reconcile_step_def split: sum.splits)
        with update_extends [OF assms] False \<open>node = Some n\<close> Some show ?thesis
          by (auto simp add: reconcile_step_def)
      qed
    qed
  qed
qed

lemma reconcile_extends_Suc: "extends (reconcile E n) (reconcile E (Suc n))"
proof (induction n)
  case 0
  show ?case by (simp add: extends_def)
next
  case (Suc n)
  from reconcile_step_extends [OF Suc] show ?case by simp
qed

lemma reconcile_more_fuel:
  assumes "n \<le> m" and "reconcile E n parentDom i node path c = Inr r"
  shows "reconcile E m parentDom i node path c = Inr r"
  using assms
proof (induction m)
  case 0
  then show ?case by simp
next
  case (Suc m)
  show ?case
  proof (cases "n = Suc m")
    case True
    with Suc.prems show ?thesis by simp
  next
    case False
    with Suc.prems have "n \<le> m" by simp
    from Suc.IH [OF this Suc.prems(2)] extendsD [OF reconcile_extends_Suc]
    show ?thesis by blast
  qed
qed

lemma render_more_fuel:
  "n \<le> m \<Longrightarrow> render E n c = Inr c' \<Longrightarrow> render E m c = Inr c'"
  by (auto simp: render_def Let_def split: sum.splits dest: reconcile_more_fuel)

section \<open>Properties of the hook store\<close>

lemma run_cleanups_calls:
  "run_cleanups hs c = c\<lparr>calls := calls c @ stored_cleanups hs\<rparr>"
proof (induction hs arbitrary: c)
  case Nil
  then show ?case by simp
next
  case (Cons h hs)
  show ?case
    by (cases h) (auto simp: Cons.IH invoke_def split: option.splits)
qed

lemma delete_paths_closed:
  "distinct ps \<Longrightarrow>
   delete_paths ps c =
     c\<lparr>hooks_state := filter (\<lambda>(p, hs). p \<notin> set ps) (hooks_state c),
       hooks_cursor := (\<lambda>p. if p \<in> set ps then None else hooks_cursor c p),
       calls := calls c @ concat (map (cleanups_at c) ps)\<rparr>"
proof (induction ps arbitrary: c)
  case Nil
  then show ?case by simp
next
  case (Cons q ps)
  let ?c1 = "case map_of (hooks_state c) q of Some hs \<Rightarrow> run_cleanups hs c | None \<Rightarrow> c"
  let ?c2 = "?c1\<lparr>hooks_state := AList.delete q (hooks_state ?c1),
                 hooks_cursor := (hooks_cursor ?c1)(q := None)\<rparr>"
  have c1: "?c1 = c\<lparr>calls := calls c @ cleanups_at c q\<rparr>"
    by (simp add: cleanups_at_def run_cleanups_calls split: option.splits)
  have st: "hooks_state ?c2 = AList.delete q (hooks_state c)"
    and cu: "hooks_cursor ?c2 = (hooks_cursor c)(q := None)"
    and ca: "calls ?c2 = calls c @ cleanups_at c q"
    by (simp_all add: c1)
  have rest: "\<And>p. p \<in> set ps \<Longrightarrow> cleanups_at ?c2 p = cleanups_at c p"
    using Cons.prems by (auto simp: cleanups_at_def st delete_conv)
  have "delete_paths (q # ps) c = delete_paths ps ?c2"
    by (simp add: Let_def)
  also have "\<dots> = ?c2\<lparr>hooks_state := filter (\<lambda>(p, hs). p \<notin> set ps) (hooks_state ?c2),
       hooks_cursor := (\<lambda>p. if p \<in> set ps then None else hooks_cursor ?c2 p),
       calls := calls ?c2 @ concat (map (cleanups_at ?c2) ps)\<rparr>"
    using Cons.prems by (intro Cons.IH) simp
  also have "\<dots> = c\<lparr>hooks_state := filter (\<lambda>(p, hs). p \<notin> set (q # ps)) (hooks_state c),
       hooks_cursor := (\<lambda>p. if p \<in> set (q # ps) then None else hooks_cursor c p),
       calls := calls c @ concat (map (cleanups_at c) (q # ps))\<rparr>"
  proof -
    have 1: "filter (\<lambda>(p, hs). p \<notin> set ps) (AList.delete q (hooks_state c)) =
             filter (\<lambda>(p, hs). p \<notin> set (q # ps)) (hooks_state c)"
      by (auto simp: AList.delete_eq intro!: filter_cong)
    have 2: "(\<lambda>p. if p \<in> set ps then None else ((hooks_cursor c)(q := None)) p) =
             (\<lambda>p. if p \<in> set (q # ps) then None else hooks_cursor c p)"
      by auto
    have 3: "map (cleanups_at ?c2) ps = map (cleanups_at c) ps"
      using rest by simp
    show ?thesis
      unfolding st cu ca 1 2 3 by (simp add: c1)
  qed
  finally show ?case .
qed

text \<open>
  Claim C4. When the slot table holds each path once, \<open>cleanupUnusedHooks\<close> runs, for
  the paths of the table that are not in the visited set, in table order, the non-null
  cleanup of every effect slot stored under the path, in slot order; it removes exactly
  those paths from the slot table and from the cursor map; the entries of visited paths
  and everything else in the context stay as they were.
\<close>

theorem cleanupUnusedHooks_collects:
  assumes "distinct (map fst (hooks_state c))"
  shows
   "cleanupUnusedHooks c =
      c\<lparr>hooks_state := filter (\<lambda>(p, hs). p \<in> hooks_visited c) (hooks_state c),
        hooks_cursor := (\<lambda>p. if p \<in> fst ` set (hooks_state c) \<and> p \<notin> hooks_visited c then None
                             else hooks_cursor c p),
        calls := calls c @
                 concat (map (\<lambda>(p, hs). stored_cleanups hs)
                           (filter (\<lambda>(p, hs). p \<notin> hooks_visited c) (hooks_state c)))\<rparr>"
proof -
  let ?ps = "pathsToDelete c"
  have ps: "?ps = map fst (filter (\<lambda>(p, hs). p \<notin> hooks_visited c) (hooks_state c))"
    by (simp add: pathsToDelete_def filter_map comp_def case_prod_unfold)
  have dist: "distinct ?ps"
    using assms by (simp add: pathsToDelete_def)
  have set_ps: "set ?ps = {p \<in> fst ` set (hooks_state c). p \<notin> hooks_visited c}"
    by (auto simp: pathsToDelete_def)
  have 1: "filter (\<lambda>(p, hs). p \<notin> set ?ps) (hooks_state c) =
           filter (\<lambda>(p, hs). p \<in> hooks_visited c) (hooks_state c)"
    by (rule filter_cong) (auto simp: set_ps intro: rev_image_eqI)
  have 2: "(\<lambda>p. if p \<in> set ?ps then None else hooks_cursor c p) =
           (\<lambda>p. if p \<in> fst ` set (hooks_state c) \<and> p \<notin> hooks_visited c then None
                else hooks_cursor c p)"
    by (auto simp: set_ps)
  have 3: "map (cleanups_at c) ?ps =
           map (\<lambda>(p, hs). stored_cleanups hs)
             (filter (\<lambda>(p, hs). p \<notin> hooks_visited c) (hooks_state c))"
    unfolding ps using assms
    by (auto simp: cleanups_at_def)
  show ?thesis
    unfolding cleanupUnusedHooks_def delete_paths_closed [OF dist] 1 2 3 ..
qed

text \<open>In the sample context the unvisited path \<open>.cGone_0\<close> loses its slots and
  cursor after its one stored cleanup has run; the visited counter keeps both.\<close>

theorem cleanupUnusedHooks_collects_witness:
  "distinct (map fst (hooks_state ex_stale)) \<and>
   hooks_state (cleanupUnusedHooks ex_stale) =
     [(''.cCounter_0'', [VNum 0, VEffectHook (VArr 1 [VNum 1]) (Some 9) 7])] \<and>
   calls (cleanupUnusedHooks ex_stale) = [11] \<and>
   hooks_cursor (cleanupUnusedHooks ex_stale) ''.cGone_0'' = None \<and>
   hooks_cursor (cleanupUnusedHooks ex_stale) ''.cCounter_0'' = Some 2"
  using cleanupUnusedHooks_collects [where c = ex_stale]
  by (simp add: ex_stale_def ex_context_def)

lemma write_slot_same:
  assumes "truthy (array_get (hooks_at c path) cursor)"
  shows "write_slot path cursor (array_get (hooks_at c path) cursor) c = c"
proof -
  from assms have lt: "cursor < length (hooks_at c path)"
    by (auto simp: array_get_def split: if_splits)
  then obtain hs where hs: "map_of (hooks_state c) path = Some hs"
    by (auto simp: hooks_at_def split: option.splits)
  with lt have "array_set (hooks_at c path) cursor (array_get (hooks_at c path) cursor) = hs"
    by (simp add: hooks_at_def array_get_def array_set_def)
  with hs show ?thesis by (simp add: write_slot_def update_triv)
qed

text \<open>
  Claim C5. Let a component be executing at \<open>path\<close>, with its cursor at a slot. If the
  slot is empty (first render), \<open>useEffect\<close> stores a new effect slot with no cleanup and
  enqueues \<open>(path, cursor)\<close>. If the slot holds an effect hook and \<open>deps\<close> is undefined
  or not shallow-equal to the stored deps, it stores a new effect slot that carries the
  stored cleanup and enqueues \<open>(path, cursor)\<close>. If the slot holds an effect hook and
  \<open>deps\<close> is shallow-equal to the stored deps, the slot table and the queue are left as
  they are. The cursor advances by one in each case.
\<close>

theorem useEffect_slot:
  assumes "currentPath c = Some path"
  shows
   "(array_get (hooks_at c path) (cursor_at c path) = VUndefined \<longrightarrow>
       useEffect E effect deps c =
         Inr (c\<lparr>hooks_state :=
                   AList.update path
                     (array_set (hooks_at c path) (cursor_at c path)
                        (VEffectHook (if isArray deps then deps else VNull) None effect))
                     (hooks_state c),
                 effects_queue := effects_queue c @ [(path, cursor_at c path)],
                 hooks_cursor := (hooks_cursor c)(path \<mapsto> cursor_at c path + 1)\<rparr>)) \<and>
    (\<forall>d cl e.
       array_get (hooks_at c path) (cursor_at c path) = VEffectHook d cl e \<and>
       (deps = VUndefined \<or> \<not> shallowEquals (protos E) d deps) \<longrightarrow>
       useEffect E effect deps c =
         Inr (c\<lparr>hooks_state :=
                   AList.update path
                     (array_set (hooks_at c path) (cursor_at c path)
                        (VEffectHook (if isArray deps then deps else VNull) cl effect))
                     (hooks_state c),
                 effects_queue := effects_queue c @ [(path, cursor_at c path)],
                 hooks_cursor := (hooks_cursor c)(path \<mapsto> cursor_at c path + 1)\<rparr>)) \<and>
    (\<forall>d cl e.
       array_get (hooks_at c path) (cursor_at c path) = VEffectHook d cl e \<and>
       deps \<noteq> VUndefined \<and> shallowEquals (protos E) d deps \<longrightarrow>
       useEffect E effect deps c =
         Inr (c\<lparr>hooks_cursor := (hooks_cursor c)(path \<mapsto> cursor_at c path + 1)\<rparr>))"
proof (intro conjI allI impI)
  assume "array_get (hooks_at c path) (cursor_at c path) = VUndefined"
  then show "useEffect E effect deps c =
         Inr (c\<lparr>hooks_state :=
                   AList.update path
                     (array_set (hooks_at c path) (cursor_at c path)
                        (VEffectHook (if isArray deps then deps else VNull) None effect))
                     (hooks_state c),
                 effects_queue := effects_queue c @ [(path, cursor_at c path)],
                 hooks_cursor := (hooks_cursor c)(path \<mapsto> cursor_at c path + 1)\<rparr>)"
    using assms by (simp add: useEffect_def Let_def write_slot_def cleanup_of_def is_nullish_def)
next
  fix d cl e
  assume "array_get (hooks_at c path) (cursor_at c path) = VEffectHook d cl e \<and>
       (deps = VUndefined \<or> \<not> shallowEquals (protos E) d deps)"
  then show "useEffect E effect deps c =
         Inr (c\<lparr>hooks_state :=
                   AList.update path
                     (array_set (hooks_at c path) (cursor_at c path)
                        (VEffectHook (if isArray deps then deps else VNull) cl effect))
                     (hooks_state c),
                 effects_queue := effects_queue c @ [(path, cursor_at c path)],
                 hooks_cursor := (hooks_cursor c)(path \<mapsto> cursor_at c path + 1)\<rparr>)"
    using assms by (auto simp add: useEffect_def Let_def write_slot_def cleanup_of_def get_prop_def)
next
  fix d cl e
  assume a: "array_get (hooks_at c path) (cursor_at c path) = VEffectHook d cl e \<and>
       deps \<noteq> VUndefined \<and> shallowEquals (protos E) d deps"
  then have "truthy (array_get (hooks_at c path) (cursor_at c path))" by simp
  from write_slot_same[OF this] a
  show "useEffect E effect deps c =
         Inr (c\<lparr>hooks_cursor := (hooks_cursor c)(path \<mapsto> cursor_at c path + 1)\<rparr>)"
    using assms by (simp add: useEffect_def Let_def get_prop_def)
qed

text \<open>In the sample context the effect slot holds deps \<open>[1]\<close>: deps \<open>[1]\<close> again
  keep the slot, deps \<open>[5]\<close> replace it, and at the empty slot after it a new hook is
  stored.\<close>

theorem useEffect_slot_witness:
  "currentPath ex_running = Some ''.cCounter_0'' \<and>
   array_get (hooks_at ex_running ''.cCounter_0'') (cursor_at ex_running ''.cCounter_0'') =
     VEffectHook (VArr 1 [VNum 1]) (Some 9) 7 \<and>
   shallowEquals (protos ex_env) (VArr 1 [VNum 1]) (VArr 2 [VNum 1]) \<and>
   useEffect ex_env 8 (VArr 2 [VNum 1]) ex_running =
     Inr (ex_running\<lparr>hooks_cursor := [''.cCounter_0'' \<mapsto> 2]\<rparr>) \<and>
   \<not> shallowEquals (protos ex_env) (VArr 1 [VNum 1]) (VArr 2 [VNum 5]) \<and>
   useEffect ex_env 8 (VArr 2 [VNum 5]) ex_running =
     Inr (ex_running\<lparr>hooks_state :=
                        [(''.cCounter_0'', [VNum 0, VEffectHook (VArr 2 [VNum 5]) (Some 9) 8])],
                      effects_queue := [(''.cCounter_0'', 1)],
                      hooks_cursor := [''.cCounter_0'' \<mapsto> 2]\<rparr>) \<and>
   array_get (hooks_at (ex_running\<lparr>hooks_cursor := [''.cCounter_0'' \<mapsto> 2]\<rparr>) ''.cCounter_0'') 2 = VUndefined \<and>
   useEffect ex_env 8 VUndefined (ex_running\<lparr>hooks_cursor := [''.cCounter_0'' \<mapsto> 2]\<rparr>) =
     Inr (ex_running\<lparr>hooks_state :=
                        [(''.cCounter_0'', [VNum 0, VEffectHook (VArr 1 [VNum 1]) (Some 9) 7,
                                            VEffectHook VNull None 8])],
                      effects_queue := [(''.cCounter_0'', 2)],
                      hooks_cursor := [''.cCounter_0'' \<mapsto> 3]\<rparr>)"
  using useEffect_slot [where E = ex_env and c = ex_running and path = "''.cCounter_0''" and effect = 8
                          and deps = "VArr 2 [VNum 1]"]
    useEffect_slot [where E = ex_env and c = ex_running and path = "''.cCounter_0''" and effect = 8
                          and deps = "VArr 2 [VNum 5]"]
    useEffect_slot [where E = ex_env and c = "ex_running\<lparr>hooks_cursor := [''.cCounter_0'' \<mapsto> 2]\<rparr>"
                          and path = "''.cCounter_0''" and effect = 8 and deps = VUndefined]
  by (simp add: ex_running_def ex_context_def currentPath_def hooks_at_def cursor_at_def
        array_get_def array_set_def shallowEquals_def Object_is_def is_nullish_def
        numeral_2_eq_2 numeral_3_eq_3)

text \<open>
  Claim C10. For a state slot that exists (its path has a slot array and the index is
  within it), the setter computes the new value (the argument, or the result of the
  argument called on the stored value when it is a function). If the new value is
  \<open>Object.is\<close>-equal to the stored one the context is left as it is: nothing is
  written and no render is enqueued. Otherwise the new value is written into the slot and
  one render request is enqueued.
\<close>

theorem setState_bails_out_or_writes:
  assumes "map_of (hooks_state c) path = Some hs" and "cursor < length hs"
  shows
   "(Object_is (hs ! cursor) (case nextValue of VFun f \<Rightarrow> call_fn E f [hs ! cursor] | v \<Rightarrow> v) \<longrightarrow>
       setState E path cursor nextValue c = c) \<and>
    (\<not> Object_is (hs ! cursor) (case nextValue of VFun f \<Rightarrow> call_fn E f [hs ! cursor] | v \<Rightarrow> v) \<longrightarrow>
       setState E path cursor nextValue c =
         c\<lparr>hooks_state :=
             AList.update path
               (hs[cursor := (case nextValue of VFun f \<Rightarrow> call_fn E f [hs ! cursor] | v \<Rightarrow> v)])
               (hooks_state c),
           renders_enqueued := Suc (renders_enqueued c)\<rparr>)"
  using assms by (simp add: setState_def Let_def array_get_def array_set_def enqueueRender_def)

text \<open>On the state slot holding \<open>0\<close>: setting \<open>0\<close> changes nothing, the updater
  \<open>n \<mapsto> n + 1\<close> writes \<open>1\<close> and enqueues a render.\<close>

theorem setState_bails_out_or_writes_witness:
  "map_of (hooks_state ex_running) ''.cCounter_0'' =
     Some [VNum 0, VEffectHook (VArr 1 [VNum 1]) (Some 9) 7] \<and>
   (0::nat) < length [VNum 0, VEffectHook (VArr 1 [VNum 1]) (Some 9) 7] \<and>
   setState ex_env ''.cCounter_0'' 0 (VNum 0) ex_running = ex_running \<and>
   setState ex_env ''.cCounter_0'' 0 (VFun 5) ex_running =
     ex_running\<lparr>hooks_state := [(''.cCounter_0'', [VNum 1, VEffectHook (VArr 1 [VNum 1]) (Some 9) 7])],
                renders_enqueued := 1\<rparr>"
  using setState_bails_out_or_writes [where c = ex_running and path = "''.cCounter_0''"
           and hs = "[VNum 0, VEffectHook (VArr 1 [VNum 1]) (Some 9) 7]" and cursor = 0
           and nextValue = "VNum 0" and E = ex_env]
    setState_bails_out_or_writes [where c = ex_running and path = "''.cCounter_0''"
           and hs = "[VNum 0, VEffectHook (VArr 1 [VNum 1]) (Some 9) 7]" and cursor = 0
           and nextValue = "VFun 5" and E = ex_env]
  by (simp add: ex_running_def ex_context_def ex_env_def ex_base_def Object_is_def)

section \<open>The per-pass reset\<close>

text \<open>
  Claim C8. The reset at the start of \<open>render\<close> empties the cursor map, the visited set
  and the component call stack and leaves the slot table as it was; \<open>render\<close> reconciles
  the root in the context so reset.
\<close>

theorem reset_pass_frame:
  "hooks_cursor (reset_pass c) = Map.empty \<and>
   hooks_visited (reset_pass c) = {} \<and>
   hooks_componentStack (reset_pass c) = [] \<and>
   hooks_state (reset_pass c) = hooks_state c \<and>
   render E fuel c =
     (case reconcile E fuel (root_container c) (root_instance c) (root_node c) [] (reset_pass c) of
        Inl e \<Rightarrow> Inl e
      | Inr (inst, c2) \<Rightarrow>
          Inr (schedule_effects (cleanupUnusedHooks (c2\<lparr>root_instance := inst\<rparr>))))"
  by (simp add: reset_pass_def render_def Let_def)

section \<open>Scheduling and running effects\<close>

lemma run_effects_fold: "run_effects E es c = fold (run_effect E) es c"
  by (induction es arbitrary: c) simp_all

lemma delete_paths_frame:
  "effects_queue (delete_paths ps c) = effects_queue c \<and>
   microtasks (delete_paths ps c) = microtasks c"
  by (induction ps arbitrary: c) (simp_all add: Let_def run_cleanups_calls split: option.splits)

lemma cleanupUnusedHooks_frame:
  "effects_queue (cleanupUnusedHooks c) = effects_queue c"
  "microtasks (cleanupUnusedHooks c) = microtasks c"
  by (simp_all add: cleanupUnusedHooks_def delete_paths_frame)

text \<open>
  Claim C6. When the reconciliation of the root returns, \<open>render\<close> returns with the live
  queue empty and, if the queue as reconciliation left it was non-empty, with that queue
  appended as one batch to the scheduled microtasks; so no entry handed to a flush is
  still in the live queue when a later pass takes its own snapshot. The flush runs the
  entries of its batch in order. For an entry whose slot holds an effect hook, the
  stored cleanup (if any) runs, then the effect, and the slot's cleanup becomes what the
  effect returned (null for none). For an entry whose path has no slot array, or whose
  index lies beyond it, the context is left as it is.
\<close>

theorem effect_flush:
  "(reconcile E fuel (root_container c) (root_instance c) (root_node c) [] (reset_pass c) =
      Inr (inst, c1) \<longrightarrow>
    (\<exists>c2. render E fuel c = Inr c2 \<and> effects_queue c2 = [] \<and>
          microtasks c2 =
            microtasks c1 @ (if effects_queue c1 = [] then [] else [effects_queue c1]))) \<and>
   run_effects E es c = fold (run_effect E) es c \<and>
   (map_of (hooks_state c) path = Some hs \<and> array_get hs cursor = VEffectHook d cl e \<longrightarrow>
    run_effect E (path, cursor) c =
      c\<lparr>calls := calls c @ (case cl of Some f \<Rightarrow> [f] | None \<Rightarrow> []) @ [e],
        hooks_state :=
          AList.update path (hs[cursor := VEffectHook d (effect_result E e) e]) (hooks_state c)\<rparr>) \<and>
   (map_of (hooks_state c) path = None \<or>
    (map_of (hooks_state c) path = Some hs \<and> length hs \<le> cursor) \<longrightarrow>
    run_effect E (path, cursor) c = c)"
proof (intro conjI impI)
  assume "reconcile E fuel (root_container c) (root_instance c) (root_node c) [] (reset_pass c) =
      Inr (inst, c1)"
  then show "\<exists>c2. render E fuel c = Inr c2 \<and> effects_queue c2 = [] \<and>
          microtasks c2 =
            microtasks c1 @ (if effects_queue c1 = [] then [] else [effects_queue c1])"
    by (simp add: render_def Let_def reset_pass_def schedule_effects_def cleanupUnusedHooks_frame)
next
  show "run_effects E es c = fold (run_effect E) es c" by (rule run_effects_fold)
next
  assume a: "map_of (hooks_state c) path = Some hs \<and> array_get hs cursor = VEffectHook d cl e"
  then have lt: "cursor < length hs" by (auto simp: array_get_def split: if_splits)
  with a show "run_effect E (path, cursor) c =
      c\<lparr>calls := calls c @ (case cl of Some f \<Rightarrow> [f] | None \<Rightarrow> []) @ [e],
        hooks_state :=
          AList.update path (hs[cursor := VEffectHook d (effect_result E e) e]) (hooks_state c)\<rparr>"
    by (cases cl) (simp_all add: run_effect_def Let_def invoke_def write_slot_def hooks_at_def
                      array_set_def)
next
  assume "map_of (hooks_state c) path = None \<or>
    (map_of (hooks_state c) path = Some hs \<and> length hs \<le> cursor)"
  then show "run_effect E (path, cursor) c = c"
    by (auto simp: run_effect_def array_get_def)
qed

text \<open>The first pass over the counter: one effect is queued under the root path.\<close>

lemma ex_mounted:
  "\<exists>inst c1. reconcile ex_env 4 (root_container ex_root) (root_instance ex_root)
        (root_node ex_root) [] (reset_pass ex_root) = Inr (inst, c1) \<and>
      hooks_state c1 = [([], [VNum 0, VEffectHook (VArr 1 []) None 7])] \<and>
      hooks_visited c1 = {[]} \<and>
      effects_queue c1 = [([], 1)] \<and> microtasks c1 = [] \<and> calls c1 = []"
  unfolding fuel_4
  by (simp add: reconcile_step_def mount_def render_child_def ex_env_def ex_base_def
        Counter_def enter_component_def leave_component_def useState_def useEffect_def
        currentPath_def cursor_at_def hooks_at_def array_get_def array_set_def write_slot_def
        reset_pass_def ex_context_def ex_root_def Let_def createChildPath_def componentName_def
        createElement_def createTextNode_def emit_def
        appendChild_def setDomProp_def key_in_dom_def startsWith_on_def eventType_def lower_char_def
        reconcileChildren_def reconcileChildren_from.simps old_child_at_def new_child_at_def
        child_path_def ex_text_def text_value_def prop_value_def is_nullish_def shallowEquals_def 
        Object_is_def cleanup_of_def store_of_def with_store_def perform_def tag_of_def
        number_string_digit get_prop_def)

text \<open>Rendering the counter schedules the one queued effect and empties the queue; the
  flush of the stored effect slot runs cleanup \<open>9\<close>, then effect \<open>7\<close>; an entry for a
  path without slots is skipped.\<close>

theorem effect_flush_witness:
  "(\<exists>c2. render ex_env 4 ex_root = Inr c2 \<and> effects_queue c2 = [] \<and>
         microtasks c2 = [[([], 1)]]) \<and>
   run_effect ex_env (''.cCounter_0'', 1) ex_running =
     ex_running\<lparr>calls := [9, 7],
                hooks_state := [(''.cCounter_0'', [VNum 0, VEffectHook (VArr 1 [VNum 1]) (Some 9) 7])]\<rparr> \<and>
   run_effect ex_env (''.cGone_0'', 0) ex_running = ex_running"
proof -
  obtain inst c1 where
    r: "reconcile ex_env 4 (root_container ex_root) (root_instance ex_root)
          (root_node ex_root) [] (reset_pass ex_root) = Inr (inst, c1)"
    and qu: "effects_queue c1 = [([], 1)]" and mi: "microtasks c1 = []"
    using ex_mounted by blast
  from effect_flush [where E = ex_env and fuel = 4 and c = ex_root and inst = inst and ?c1.0 = c1] r
  have 1: "\<exists>c2. render ex_env 4 ex_root = Inr c2 \<and> effects_queue c2 = [] \<and>
         microtasks c2 = [[([], 1)]]"
    by (simp add: qu mi)
  from effect_flush [where E = ex_env and c = ex_running and path = "''.cCounter_0''" and cursor = 1
         and hs = "[VNum 0, VEffectHook (VArr 1 [VNum 1]) (Some 9) 7]"
         and d = "VArr 1 [VNum 1]" and cl = "Some 9" and e = 7]
  have 2: "run_effect ex_env (''.cCounter_0'', 1) ex_running =
     ex_running\<lparr>calls := [9, 7],
                hooks_state := [(''.cCounter_0'', [VNum 0, VEffectHook (VArr 1 [VNum 1]) (Some 9) 7])]\<rparr>"
    by (simp add: ex_running_def ex_context_def array_get_def ex_env_def ex_base_def)
  from effect_flush [where E = ex_env and c = ex_running and path = "''.cGone_0''" and cursor = 0]
  have 3: "run_effect ex_env (''.cGone_0'', 0) ex_running = ex_running"
    by (simp add: ex_running_def ex_context_def)
  from 1 2 3 show ?thesis by blast
qed

section \<open>Reconciling the same tree twice\<close>


























end
